theory Spec2Isabelle
  imports Complex_Main "HOL-Library.Log_Nat" "HOL-Library.Sublist" "HOL-Library.AList"
begin

section \<open>FastqBLAST: sampling, end trimming and report correlation\<close>

text \<open>
  A shallow embedding of \<^verbatim>\<open>FastqBLAST.py\<close>. Every function of the script is a HOL
  function of the same name. What the script reads from outside (the lines of the FASTQ
  file, the choice made by \<^verbatim>\<open>random.sample\<close>, the parsed BLAST and GenBank records) is an
  argument; what it writes or sends is a returned value or an event of a trace. An uncaught
  Python exception and \<^verbatim>\<open>sys.exit()\<close> are values of type \<open>error\<close>; a function that can
  raise returns \<open>error + 'a\<close>.
\<close>

subsection \<open>Exceptions\<close>

text \<open>The three places where the script calls \<^verbatim>\<open>sys.exit()\<close>: lines 100, 103 and 225.\<close>

datatype exit_site = SampleLargerThanPopulation | SampleOfSizeZero | BlastQueryRejected

datatype error =
    SystemExit exit_site
  | KeyError
  | IndexError
  | ValueError
  | TypeError
  | UnboundLocalError
  | ZeroDivisionError
  | OverflowError
  | StopIteration
  | HTTPError

subsection \<open>Python floats\<close>

text \<open>
  A Python float is an IEEE 754 binary64 value: a finite number, an infinity or NaN. A
  finite float is the rational number it denotes (the two zeros are one value: the script
  never tells them apart). \<open>rnd\<close> rounds a rational to the nearest number of the binary64
  grid, ties to the even significand: 53 significant bits for a normal number, multiples
  of \<open>2 ^ - 1074\<close> below \<open>2 ^ - 1022\<close>. \<open>fl\<close> is the result of an arithmetic operation whose
  exact value is the rational: the rounded number, or the infinity of its sign when the
  rounded number does not fit (its magnitude reaches \<open>2 ^ 1024\<close>, that is, its exponent
  reaches 1024).
\<close>

datatype pyfloat = Fin rat | PosInf | NegInf | NaN

definition pow2 :: "int \<Rightarrow> rat" where
  "pow2 k = (if 0 \<le> k then 2 ^ nat k else 1 / 2 ^ nat (- k))"

definition round_half_even :: "rat \<Rightarrow> int" where
  "round_half_even x =
     (let f = \<lfloor>x\<rfloor>; d = x - of_int f
      in if d < 1 / 2 then f else if 1 / 2 < d then f + 1 else if even f then f else f + 1)"

text \<open>For \<open>x > 0\<close>, the exponent \<open>e\<close> with \<open>2 ^ e \<le> x < 2 ^ (e + 1)\<close>.\<close>

definition ilog2 :: "rat \<Rightarrow> int" where
  "ilog2 x =
     (let d = bitlen (fst (quotient_of x)) - bitlen (snd (quotient_of x))
      in if pow2 d \<le> x then d else d - 1)"

definition rnd :: "rat \<Rightarrow> rat" where
  "rnd x =
     (if x = 0 then 0
      else let s = 52 - max (ilog2 \<bar>x\<bar>) (- 1022); m = round_half_even (\<bar>x\<bar> * pow2 s)
           in sgn x * of_int m / pow2 s)"

definition fl :: "rat \<Rightarrow> pyfloat" where
  "fl x =
     (let r = rnd x
      in if 1024 \<le> ilog2 \<bar>r\<bar> then (if 0 < x then PosInf else NegInf) else Fin r)"

text \<open>The sign of a float, and the infinity of a sign.\<close>

fun sign_of :: "pyfloat \<Rightarrow> rat" where
  "sign_of (Fin x) = sgn x"
| "sign_of PosInf = 1"
| "sign_of NegInf = - 1"
| "sign_of NaN = 0"

definition inf_of :: "rat \<Rightarrow> pyfloat" where
  "inf_of s = (if 0 < s then PosInf else NegInf)"

text \<open>
  \<^verbatim>\<open>float(i)\<close> and the conversion of an int operand of a float operation raise
  \<open>OverflowError\<close> when the int is too large; so does the true division \<^verbatim>\<open>a / b\<close> of two
  ints, which is correctly rounded. The product and the quotient of two floats overflow
  to an infinity without raising; a float divisor equal to zero raises
  \<open>ZeroDivisionError\<close>.
\<close>

definition finite_or_overflow :: "pyfloat \<Rightarrow> error + pyfloat" where
  "finite_or_overflow x = (case x of Fin r \<Rightarrow> Inr (Fin r) | _ \<Rightarrow> Inl OverflowError)"

definition py_float :: "int \<Rightarrow> error + pyfloat" where
  "py_float i = finite_or_overflow (fl (of_int i))"

fun py_fmul :: "pyfloat \<Rightarrow> pyfloat \<Rightarrow> pyfloat" where
  "py_fmul (Fin a) (Fin b) = fl (a * b)"
| "py_fmul x y =
     (if x = NaN \<or> y = NaN \<or> sign_of x * sign_of y = 0 then NaN
      else inf_of (sign_of x * sign_of y))"

fun py_fdiv :: "pyfloat \<Rightarrow> pyfloat \<Rightarrow> error + pyfloat" where
  "py_fdiv x (Fin b) =
     (if b = 0 then Inl ZeroDivisionError
      else case x of
             Fin a \<Rightarrow> Inr (fl (a / b))
           | NaN \<Rightarrow> Inr NaN
           | _ \<Rightarrow> Inr (inf_of (sign_of x * sgn b)))"
| "py_fdiv x NaN = Inr NaN"
| "py_fdiv (Fin a) y = Inr (Fin 0)"
| "py_fdiv x y = Inr NaN"

definition py_truediv :: "int \<Rightarrow> int \<Rightarrow> error + pyfloat" where
  "py_truediv a b =
     (if b = 0 then Inl ZeroDivisionError else finite_or_overflow (fl (of_int a / of_int b)))"

text \<open>\<^verbatim>\<open>int(x)\<close> truncates towards zero and \<^verbatim>\<open>round(x)\<close> rounds half to even; both raise
  \<open>OverflowError\<close> on an infinity and \<open>ValueError\<close> on NaN. \<^verbatim>\<open>round(x, 2)\<close> rounds the
  exact value of the float to two decimals, half to even, and returns the nearest float;
  an infinity and NaN are returned as they are.\<close>

fun py_int :: "pyfloat \<Rightarrow> error + int" where
  "py_int (Fin x) = Inr (if 0 \<le> x then \<lfloor>x\<rfloor> else \<lceil>x\<rceil>)"
| "py_int NaN = Inl ValueError"
| "py_int x = Inl OverflowError"

fun py_round :: "pyfloat \<Rightarrow> error + int" where
  "py_round (Fin x) = Inr (round_half_even x)"
| "py_round NaN = Inl ValueError"
| "py_round x = Inl OverflowError"

fun py_round2 :: "pyfloat \<Rightarrow> error + pyfloat" where
  "py_round2 (Fin x) = finite_or_overflow (fl (of_int (round_half_even (x * 100)) / 100))"
| "py_round2 x = Inr x"

subsection \<open>Python strings and lists\<close>

text \<open>
  A character of the model is a code point below 256. \<^verbatim>\<open>str.isspace\<close> on that range:
  tab, line feed, vertical tab, form feed, carriage return, the four separators 0x1C to
  0x1F, space, next line (0x85) and no-break space (0xA0).
\<close>

definition is_space :: "char \<Rightarrow> bool" where
  "is_space c =
     (let n = (of_char c :: nat)
      in (9 \<le> n \<and> n \<le> 13) \<or> (28 \<le> n \<and> n \<le> 32) \<or> n = 133 \<or> n = 160)"

definition py_rstrip :: "string \<Rightarrow> string" where
  "py_rstrip s = rev (dropWhile is_space (rev s))"

text \<open>\<^verbatim>\<open>s.split(sep)\<close> for a separator of one character.\<close>

fun py_split :: "char \<Rightarrow> string \<Rightarrow> string list" where
  "py_split sep [] = [[]]"
| "py_split sep (c # cs) =
     (if c = sep then [] # py_split sep cs
      else (case py_split sep cs of [] \<Rightarrow> [[c]] | w # ws \<Rightarrow> (c # w) # ws))"

text \<open>\<^verbatim>\<open>s.split("\t")[0]\<close>: the text before the first tab (see \<open>first_field_split\<close>).\<close>

definition first_field :: "string \<Rightarrow> string" where
  "first_field s = takeWhile (\<lambda>c. c \<noteq> CHR 0x09) s"

text \<open>\<^verbatim>\<open>xs[i]\<close> for \<open>i \<ge> 0\<close>.\<close>

definition py_nth :: "'a list \<Rightarrow> nat \<Rightarrow> error + 'a" where
  "py_nth xs i = (if i < length xs then Inr (xs ! i) else Inl IndexError)"

text \<open>Sequencing of two computations that may raise.\<close>

definition py_then :: "error + 'a \<Rightarrow> ('a \<Rightarrow> error + 'b) \<Rightarrow> error + 'b" where
  "py_then m f = (case m of Inl e \<Rightarrow> Inl e | Inr x \<Rightarrow> f x)"

subsection \<open>\<^verbatim>\<open>random_sample\<close> (lines 80 to 106)\<close>

text \<open>
  The file is the list of its lines. \<^verbatim>\<open>counter\<close> is bound by the \<^verbatim>\<open>for\<close> loop, so on
  an empty file \<^verbatim>\<open>num_lines = counter\<close> raises \<open>UnboundLocalError\<close>.

  \<^verbatim>\<open>random.sample(range(0, n), k)\<close> raises \<open>ValueError\<close> when \<open>k\<close> is negative or greater
  than the length of the range; otherwise it returns \<open>k\<close> elements of the range chosen
  at random. The random choice of a run is the function \<open>pick\<close>, from the length of
  the population and the size of the sample to the chosen indices; \<open>is_choice pick\<close>
  is what the library guarantees of it: for every \<open>k \<le> n\<close>, \<open>k\<close> distinct indices
  below \<open>n\<close>.
\<close>

definition is_choice :: "(nat \<Rightarrow> nat \<Rightarrow> nat list) \<Rightarrow> bool" where
  "is_choice pick \<longleftrightarrow>
     (\<forall>n k. k \<le> n \<longrightarrow>
        length (pick n k) = k \<and> distinct (pick n k) \<and> (\<forall>x \<in> set (pick n k). x < n))"

definition py_random_sample :: "(nat \<Rightarrow> nat \<Rightarrow> nat list) \<Rightarrow> int \<Rightarrow> int \<Rightarrow> error + int list" where
  "py_random_sample pick n k =
     (if k < 0 \<or> max n 0 < k then Inl ValueError
      else Inr (map int (pick (nat n) (nat k))))"

definition num_sequences :: "int \<Rightarrow> error + int" where
  "num_sequences num_lines = py_then (py_truediv num_lines 4) py_int"

definition sample_size :: "int \<Rightarrow> pyfloat \<Rightarrow> int \<Rightarrow> error + int" where
  "sample_size n_absolute n_percent num_seqs =
     (if n_percent = Fin 0 then Inr n_absolute
      else py_then (py_float num_seqs) (\<lambda>n.
           py_then (py_float 100) (\<lambda>hundred.
           py_then (py_fdiv (py_fmul n_percent n) hundred) py_int)))"

definition random_sample ::
  "(nat \<Rightarrow> nat \<Rightarrow> nat list) \<Rightarrow> string list \<Rightarrow> int \<Rightarrow> pyfloat \<Rightarrow> error + int list" where
  "random_sample pick file n_absolute n_percent =
     (if file = [] then Inl UnboundLocalError
      else py_then (num_sequences (int (length file))) (\<lambda>num_seqs.
           py_then (sample_size n_absolute n_percent num_seqs) (\<lambda>size.
             if size > num_seqs then Inl (SystemExit SampleLargerThanPopulation)
             else if size = 0 then Inl (SystemExit SampleOfSizeZero)
             else py_then (py_random_sample pick num_seqs size) (\<lambda>xs.
                    Inr (map (\<lambda>x. x * 4) xs)))))"

subsection \<open>\<^verbatim>\<open>fastq_to_dict\<close> (lines 109 to 130)\<close>

text \<open>
  The inner dictionary of a sampled read has at most the keys \<^verbatim>\<open>sequence\<close>, \<^verbatim>\<open>ascii\<close>,
  \<^verbatim>\<open>phred\<close>, \<^verbatim>\<open>trimmed_phred\<close> and \<^verbatim>\<open>trimmed_sequence\<close>; a key that is absent is
  \<open>None\<close>, and reading it raises \<open>KeyError\<close> (the inner \<^verbatim>\<open>defaultdict()\<close> has no
  factory). The outer dictionary is the list of its items in insertion order, with
  distinct keys; reading a missing key of it inserts an empty inner dictionary.
\<close>

record sample_entry =
  sequence :: "string option"
  ascii :: "string option"
  phred :: "int list option"
  trimmed_phred :: "int list option"
  trimmed_sequence :: "string option"

type_synonym sample_dict = "(string \<times> sample_entry) list"

definition empty_entry :: sample_entry where
  "empty_entry = \<lparr>sequence = None, ascii = None, phred = None,
                   trimmed_phred = None, trimmed_sequence = None\<rparr>"

definition get_entry :: "sample_dict \<Rightarrow> string \<Rightarrow> sample_entry" where
  "get_entry d k = (case map_of d k of None \<Rightarrow> empty_entry | Some e \<Rightarrow> e)"

fun fastq_loop ::
  "int list \<Rightarrow> int \<Rightarrow> string list \<Rightarrow> string option \<Rightarrow> sample_dict \<Rightarrow> error + sample_dict" where
  "fastq_loop sample_list counter [] header d = Inr d"
| "fastq_loop sample_list counter (line # file) header d =
     (if counter \<in> set sample_list
      then fastq_loop sample_list (counter + 1) file (Some (first_field (py_rstrip line))) d
      else if counter - 1 \<in> set sample_list
      then (case header of
              None \<Rightarrow> Inl UnboundLocalError
            | Some h \<Rightarrow> fastq_loop sample_list (counter + 1) file header
                (AList.update h ((get_entry d h)\<lparr>sequence := Some (py_rstrip line)\<rparr>) d))
      else if counter - 3 \<in> set sample_list
      then (case header of
              None \<Rightarrow> Inl UnboundLocalError
            | Some h \<Rightarrow> fastq_loop sample_list (counter + 1) file header
                (AList.update h ((get_entry d h)\<lparr>ascii := Some (py_rstrip line)\<rparr>) d))
      else fastq_loop sample_list (counter + 1) file header d)"

fun decode_phred :: "int \<Rightarrow> sample_dict \<Rightarrow> error + sample_dict" where
  "decode_phred base [] = Inr []"
| "decode_phred base ((key, e) # d) =
     (case ascii e of
        None \<Rightarrow> Inl KeyError
      | Some a \<Rightarrow> py_then (decode_phred base d) (\<lambda>d'.
          Inr ((key, e\<lparr>phred := Some (map (\<lambda>x. of_char x - base) a)\<rparr>) # d')))"

definition fastq_to_dict :: "bool \<Rightarrow> string list \<Rightarrow> int list \<Rightarrow> error + sample_dict" where
  "fastq_to_dict ascii64 file sample_list =
     py_then (fastq_loop sample_list 0 file None [])
       (decode_phred (if ascii64 = False then 33 else 64))"

subsection \<open>\<^verbatim>\<open>trim_ends\<close> (lines 133 to 159)\<close>

text \<open>
  The body of the loop over the keys, for one inner dictionary. Both \<^verbatim>\<open>for\<close> loops
  enumerate the scores under \<^verbatim>\<open>phred\<close> and stop at the first pair whose score is not
  below the threshold: \<open>find\<close> on the enumerated list, reversed for the second loop. The
  slices \<^verbatim>\<open>[base:]\<close> and \<^verbatim>\<open>[:base+1]\<close> are \<open>drop base\<close> and \<open>take (base + 1)\<close>. The
  second loop slices what is stored under \<^verbatim>\<open>trimmed_phred\<close> and \<^verbatim>\<open>trimmed_sequence\<close>.
\<close>

definition trim_leading :: "sample_entry \<Rightarrow> int \<Rightarrow> error + sample_entry" where
  "trim_leading e leadingQthreshold =
     (case phred e of
        None \<Rightarrow> Inl KeyError
      | Some ph \<Rightarrow>
          (case find (\<lambda>(base, Q). \<not> Q < leadingQthreshold) (enumerate 0 ph) of
             None \<Rightarrow> Inr e
           | Some (base, Q) \<Rightarrow>
               (case sequence e of
                  None \<Rightarrow> Inl KeyError
                | Some s \<Rightarrow> Inr (e\<lparr>trimmed_phred := Some (drop base ph),
                                   trimmed_sequence := Some (drop base s)\<rparr>))))"

definition trim_trailing :: "sample_entry \<Rightarrow> int \<Rightarrow> error + sample_entry" where
  "trim_trailing e trailingQthreshold =
     (case phred e of
        None \<Rightarrow> Inl KeyError
      | Some ph \<Rightarrow>
          (case find (\<lambda>(base, Q). \<not> Q < trailingQthreshold) (rev (enumerate 0 ph)) of
             None \<Rightarrow> Inr e
           | Some (base, Q) \<Rightarrow>
               (case trimmed_phred e of
                  None \<Rightarrow> Inl KeyError
                | Some tp \<Rightarrow>
                    (case trimmed_sequence e of
                       None \<Rightarrow> Inl KeyError
                     | Some ts \<Rightarrow> Inr (e\<lparr>trimmed_phred := Some (take (base + 1) tp),
                                         trimmed_sequence := Some (take (base + 1) ts)\<rparr>)))))"

definition trim_entry :: "sample_entry \<Rightarrow> int \<Rightarrow> int \<Rightarrow> error + sample_entry" where
  "trim_entry e leadingQthreshold trailingQthreshold =
     py_then (trim_leading e leadingQthreshold) (\<lambda>e'. trim_trailing e' trailingQthreshold)"

fun trim_ends :: "sample_dict \<Rightarrow> int \<Rightarrow> int \<Rightarrow> error + sample_dict" where
  "trim_ends [] leadingQthreshold trailingQthreshold = Inr []"
| "trim_ends ((key, e) # d) leadingQthreshold trailingQthreshold =
     py_then (trim_entry e leadingQthreshold trailingQthreshold) (\<lambda>e'.
     py_then (trim_ends d leadingQthreshold trailingQthreshold) (\<lambda>d'.
       Inr ((key, e') # d')))"

subsection \<open>\<^verbatim>\<open>write_fasta\<close> (lines 162 to 174)\<close>

text \<open>The text written to \<^verbatim>\<open>blast_queries.fasta\<close>.\<close>

fun write_fasta :: "sample_dict \<Rightarrow> string" where
  "write_fasta [] = []"
| "write_fasta ((key, e) # d) =
     (case trimmed_sequence e of
        None \<Rightarrow> write_fasta d
      | Some ts \<Rightarrow> ''>'' @ drop 1 key @ [CHR 0x0A] @ ts @ [CHR 0x0A] @ write_fasta d)"

subsection \<open>\<^verbatim>\<open>blast_to_dict\<close> (lines 193 to 226)\<close>

text \<open>
  The values stored in the dictionaries of hits. The parsed search response is the list
  of its records, as \<^verbatim>\<open>NCBIXML.parse\<close> yields them; the fields are named after the
  attributes the script reads (\<^verbatim>\<open>record.query\<close>, \<^verbatim>\<open>align.title\<close>, \<^verbatim>\<open>hsp.query\<close>, ...).
\<close>

datatype pyval = PStr string | PInt int | PFloat pyfloat | PList "string list"

type_synonym hit = "(string \<times> pyval) list"
type_synonym blast_dict = "(string \<times> hit) list"

record hsp =
  hsp_identities :: int
  hsp_align_length :: int
  hsp_query :: string
  hsp_score :: pyfloat
  hsp_expect :: pyfloat

record alignment =
  align_title :: string
  align_hsps :: "hsp list"

record blast_record =
  record_query :: string
  record_alignments :: "alignment list"

text \<open>\<^verbatim>\<open>d[k1][k2] = v\<close> on a two-level \<^verbatim>\<open>defaultdict\<close>.\<close>

definition setitem2 :: "blast_dict \<Rightarrow> string \<Rightarrow> string \<Rightarrow> pyval \<Rightarrow> blast_dict" where
  "setitem2 d k1 k2 v =
     AList.update k1 (AList.update k2 v (case map_of d k1 of None \<Rightarrow> [] | Some h \<Rightarrow> h)) d"

definition percent_identity :: "hsp \<Rightarrow> error + pyfloat" where
  "percent_identity h =
     py_then (py_float (hsp_identities h)) (\<lambda>identities.
     py_then (py_float 100) (\<lambda>hundred.
     py_then (py_float (hsp_align_length h)) (\<lambda>align_length.
     py_then (py_fdiv (py_fmul hundred identities) align_length) py_round2)))"

definition parse_hsp ::
  "string \<Rightarrow> string \<Rightarrow> string list \<times> blast_dict \<Rightarrow> hsp \<Rightarrow> error + string list \<times> blast_dict" where
  "parse_hsp query title acc h =
     py_then (percent_identity h) (\<lambda>pct.
       let hit_id = py_split CHR ''|'' title in
       py_then (py_nth hit_id 1) (\<lambda>gi.
       py_then (py_nth hit_id 4) (\<lambda>description.
       py_then (py_nth hit_id 3) (\<lambda>accession.
       py_then (py_nth hit_id 2) (\<lambda>db.
         Inr (fst acc @ [gi],
              foldl (\<lambda>d (k, v). setitem2 d title k v) (snd acc)
                [(''SeqID'', PStr query),
                 (''Sequence'', PStr (hsp_query h)),
                 (''SeqLength'', PInt (int (length (hsp_query h)))),
                 (''Description'', PStr description),
                 (''Accession'', PStr accession),
                 (''Db'', PStr db),
                 (''Score'', PFloat (hsp_score h)),
                 (''E_value'', PFloat (hsp_expect h)),
                 (''Percent_Identity'', PFloat pct)]))))))"

fun parse_hsps ::
  "string \<Rightarrow> string \<Rightarrow> string list \<times> blast_dict \<Rightarrow> hsp list \<Rightarrow> error + string list \<times> blast_dict" where
  "parse_hsps query title acc [] = Inr acc"
| "parse_hsps query title acc (h # hs) =
     py_then (parse_hsp query title acc h) (\<lambda>acc'. parse_hsps query title acc' hs)"

fun parse_alignments ::
  "string \<Rightarrow> string list \<times> blast_dict \<Rightarrow> alignment list \<Rightarrow> error + string list \<times> blast_dict" where
  "parse_alignments query acc [] = Inr acc"
| "parse_alignments query acc (a # as) =
     py_then (parse_hsps query (align_title a) acc (align_hsps a))
       (\<lambda>acc'. parse_alignments query acc' as)"

fun parse_records ::
  "string list \<times> blast_dict \<Rightarrow> blast_record list \<Rightarrow> error + string list \<times> blast_dict" where
  "parse_records acc [] = Inr acc"
| "parse_records acc (r # rs) =
     py_then (parse_alignments (record_query r) acc (record_alignments r))
       (\<lambda>acc'. parse_records acc' rs)"

text \<open>\<^verbatim>\<open>list(set(GeneIDs))\<close> keeps one copy of every identifier, in an order Python does
  not specify; \<open>remdups\<close> is one such list.\<close>

definition blast_to_dict :: "blast_record list \<Rightarrow> error + blast_dict \<times> string list" where
  "blast_to_dict results =
     py_then (parse_records ([], []) results) (\<lambda>(GeneIDs, blast_dict).
       if remdups GeneIDs = [] then Inl (SystemExit BlastQueryRejected)
       else Inr (blast_dict, remdups GeneIDs))"

subsection \<open>\<^verbatim>\<open>fetch_to_dict\<close> (lines 267 to 287)\<close>

text \<open>
  A parsed GenBank record, as \<^verbatim>\<open>SeqIO.parse\<close> yields it: \<^verbatim>\<open>record.id\<close> and the three
  annotations the script reads; an annotation the record does not have is \<open>None\<close>.
\<close>

record gb_record =
  gb_id :: string
  gb_organism :: "string option"
  gb_source :: "string option"
  gb_taxonomy :: "string list option"

definition get_annotation :: "'a option \<Rightarrow> error + 'a" where
  "get_annotation a = (case a of None \<Rightarrow> Inl KeyError | Some v \<Rightarrow> Inr v)"

definition store_record :: "blast_dict \<Rightarrow> gb_record \<Rightarrow> error + blast_dict" where
  "store_record fetch_dict r =
     py_then (get_annotation (gb_organism r)) (\<lambda>organism.
     py_then (get_annotation (gb_source r)) (\<lambda>source.
     py_then (get_annotation (gb_taxonomy r)) (\<lambda>taxonomy.
     py_then (py_nth taxonomy 0) (\<lambda>domain.
       Inr (foldl (\<lambda>d (k, v). setitem2 d (gb_id r) k v) fetch_dict
              [(''Organism'', PStr organism),
               (''Source'', PStr source),
               (''Domain'', PStr domain),
               (''Taxonomy'', PList taxonomy)])))))"

fun store_records :: "blast_dict \<Rightarrow> gb_record list \<Rightarrow> error + blast_dict" where
  "store_records fetch_dict [] = Inr fetch_dict"
| "store_records fetch_dict (r # rs) =
     py_then (store_record fetch_dict r) (\<lambda>fetch_dict'. store_records fetch_dict' rs)"

text \<open>\<^verbatim>\<open>d[k]\<close> on an inner dictionary, and \<^verbatim>\<open>accession in v\<close>: a substring test on a
  string, membership on a list, \<open>TypeError\<close> on a number.\<close>

definition getitem :: "hit \<Rightarrow> string \<Rightarrow> error + pyval" where
  "getitem h k = (case map_of h k of None \<Rightarrow> Inl KeyError | Some v \<Rightarrow> Inr v)"

fun py_in :: "string \<Rightarrow> pyval \<Rightarrow> error + bool" where
  "py_in a (PStr s) = Inr (sublist a s)"
| "py_in a (PList xs) = Inr (a \<in> set xs)"
| "py_in a (PInt i) = Inl TypeError"
| "py_in a (PFloat x) = Inl TypeError"

text \<open>The innermost loop: the keys of the first value of \<^verbatim>\<open>fetch_dict\<close> are copied
  from the matching entry into the hit.\<close>

fun copy_items :: "hit \<Rightarrow> string list \<Rightarrow> hit \<Rightarrow> error + hit" where
  "copy_items entry [] h = Inr h"
| "copy_items entry (accession_item # items) h =
     py_then (getitem entry accession_item) (\<lambda>v.
       copy_items entry items (AList.update accession_item v h))"

text \<open>\<^verbatim>\<open>next(iter(fetch_dict.values())).keys()\<close>.\<close>

definition first_keys :: "blast_dict \<Rightarrow> error + string list" where
  "first_keys fetch_dict =
     (case fetch_dict of [] \<Rightarrow> Inl StopIteration | (k, entry) # rest \<Rightarrow> Inr (map fst entry))"

fun merge_accessions :: "blast_dict \<Rightarrow> blast_dict \<Rightarrow> hit \<Rightarrow> error + hit" where
  "merge_accessions fetch_dict [] h = Inr h"
| "merge_accessions fetch_dict ((accession, entry) # rest) h =
     py_then (getitem h ''Accession'') (\<lambda>v.
     py_then (py_in accession v) (\<lambda>found.
       if found
       then py_then (first_keys fetch_dict) (\<lambda>items.
            py_then (copy_items entry items h) (merge_accessions fetch_dict rest))
       else merge_accessions fetch_dict rest h))"

fun merge_hits :: "blast_dict \<Rightarrow> blast_dict \<Rightarrow> error + blast_dict" where
  "merge_hits fetch_dict [] = Inr []"
| "merge_hits fetch_dict ((record, h) # blast_dict) =
     py_then (merge_accessions fetch_dict fetch_dict h) (\<lambda>h'.
     py_then (merge_hits fetch_dict blast_dict) (\<lambda>blast_dict'.
       Inr ((record, h') # blast_dict')))"

definition fetch_to_dict :: "blast_dict \<Rightarrow> gb_record list \<Rightarrow> error + blast_dict" where
  "fetch_to_dict blast_dictionary fetch_results =
     py_then (store_records [] fetch_results) (\<lambda>fetch_dict.
       merge_hits fetch_dict blast_dictionary)"

subsection \<open>\<^verbatim>\<open>tabular_report\<close> (lines 290 to 317)\<close>

text \<open>
  A line written to \<^verbatim>\<open>blast_report.txt\<close> is the list of its cells: the values whose
  \<^verbatim>\<open>str()\<close> the script joins with tabs. The result is the list of the lines written, in
  order, and the exception that ended the function, if one did. The list of SeqIDs is
  built before the file is opened.
\<close>

type_synonym row = "pyval list"

definition columns :: "string list" where
  "columns = [''SeqID'', ''Sequence'', ''SeqLength'', ''Description'', ''Accession'', ''Db'',
              ''Score'', ''E_value'', ''Percent_Identity'', ''Organism'', ''Source'',
              ''Domain'', ''Taxonomy'']"

definition no_hit_marker :: string where
  "no_hit_marker = ''NO HIT OR SEQUENCE QUALITY BELOW THRESHOLD''"

fun seq_ids :: "blast_dict \<Rightarrow> error + pyval list" where
  "seq_ids [] = Inr []"
| "seq_ids ((record, h) # blast_dict) =
     py_then (getitem h ''SeqID'') (\<lambda>v.
     py_then (seq_ids blast_dict) (\<lambda>vs. Inr (v # vs)))"

fun hit_row :: "hit \<Rightarrow> string list \<Rightarrow> error + row" where
  "hit_row h [] = Inr []"
| "hit_row h (x # xs) =
     py_then (getitem h x) (\<lambda>v.
     py_then (hit_row h xs) (\<lambda>vs. Inr (v # vs)))"

fun write_hits :: "blast_dict \<Rightarrow> row list \<times> error option" where
  "write_hits [] = ([], None)"
| "write_hits ((record, h) # blast_dict) =
     (case hit_row h columns of
        Inl e \<Rightarrow> ([], Some e)
      | Inr r \<Rightarrow> (case write_hits blast_dict of (rs, err) \<Rightarrow> (r # rs, err)))"

definition fallback_row :: "sample_dict \<Rightarrow> string \<Rightarrow> error + row" where
  "fallback_row sample_dict sample =
     (case map_of sample_dict (CHR ''@'' # sample) of
        None \<Rightarrow> Inl KeyError
      | Some e \<Rightarrow>
          (case sequence e of
             None \<Rightarrow> Inl KeyError
           | Some s \<Rightarrow> Inr [PStr (first_field sample), PStr s, PInt (int (length s)),
                            PStr no_hit_marker]))"

fun write_fallbacks :: "sample_dict \<Rightarrow> pyval list \<Rightarrow> string list \<Rightarrow> row list \<times> error option" where
  "write_fallbacks sample_dict records [] = ([], None)"
| "write_fallbacks sample_dict records (sample # samples) =
     (if PStr sample \<notin> set records
      then (case fallback_row sample_dict sample of
              Inl e \<Rightarrow> ([], Some e)
            | Inr r \<Rightarrow> (case write_fallbacks sample_dict records samples of
                          (rs, err) \<Rightarrow> (r # rs, err)))
      else write_fallbacks sample_dict records samples)"

definition tabular_report :: "sample_dict \<Rightarrow> blast_dict \<Rightarrow> row list \<times> error option" where
  "tabular_report sample_dictionary blast_dictionary =
     (let samples = map (\<lambda>sequenceID. drop 1 (fst sequenceID)) sample_dictionary
      in case seq_ids blast_dictionary of
           Inl e \<Rightarrow> ([], Some e)
         | Inr records \<Rightarrow>
             (case write_hits blast_dictionary of
                (rows, Some e) \<Rightarrow> (map PStr columns # rows, Some e)
              | (rows, None) \<Rightarrow>
                  (case write_fallbacks sample_dictionary records samples of
                     (rows', err) \<Rightarrow> (map PStr columns # rows @ rows', err))))"

subsection \<open>\<^verbatim>\<open>fetch_gene_info\<close> (lines 229 to 264) and \<^verbatim>\<open>main\<close> (lines 320 to 331)\<close>

text \<open>
  The remote calls and the report are the events of a run, in the order they happen.
  \<^verbatim>\<open>qblast\<close> and \<^verbatim>\<open>epost\<close> are taken to return. What \<^verbatim>\<open>efetch\<close> does on the attempt
  \<open>n\<close> for the batch starting at \<open>start\<close> is given by \<open>reply start n\<close>: it answers,
  raises an \<^verbatim>\<open>HTTPError\<close> with a code from 500 to 599, or raises another \<^verbatim>\<open>HTTPError\<close>.
  The \<^verbatim>\<open>while\<close> loop has no \<^verbatim>\<open>break\<close>: it makes three attempts unless one raises past it.
  \<^verbatim>\<open>fetch_handle\<close> is unbound until an attempt answers and is closed after each batch.
\<close>

datatype http_reply = Answered | ServerFailure | OtherFailure

datatype handle = Unbound | Opened | Closed

datatype event =
    Qblast string int
  | Epost string
  | Efetch nat
  | Report "row list"

fun py_join :: "string \<Rightarrow> string list \<Rightarrow> string" where
  "py_join sep [] = []"
| "py_join sep [x] = x"
| "py_join sep (x # y # ys) = x @ sep @ py_join sep (y # ys)"

fun fetch_attempts ::
  "(nat \<Rightarrow> nat \<Rightarrow> http_reply) \<Rightarrow> nat \<Rightarrow> nat list \<Rightarrow> handle \<Rightarrow> event list \<times> (error + handle)" where
  "fetch_attempts reply start [] fetch_handle = ([], Inr fetch_handle)"
| "fetch_attempts reply start (attempt # attempts) fetch_handle =
     (case reply start attempt of
        Answered \<Rightarrow>
          (case fetch_attempts reply start attempts Opened of (evs, r) \<Rightarrow> (Efetch start # evs, r))
      | ServerFailure \<Rightarrow>
          (case fetch_attempts reply start attempts fetch_handle of
             (evs, r) \<Rightarrow> (Efetch start # evs, r))
      | OtherFailure \<Rightarrow> ([Efetch start], Inl HTTPError))"

fun fetch_batches ::
  "(nat \<Rightarrow> nat \<Rightarrow> http_reply) \<Rightarrow> nat list \<Rightarrow> handle \<Rightarrow> event list \<times> error option" where
  "fetch_batches reply [] fetch_handle = ([], None)"
| "fetch_batches reply (start # starts) fetch_handle =
     (case fetch_attempts reply start [1, 2, 3] fetch_handle of
        (evs, Inl e) \<Rightarrow> (evs, Some e)
      | (evs, Inr Unbound) \<Rightarrow> (evs, Some UnboundLocalError)
      | (evs, Inr Closed) \<Rightarrow> (evs, Some ValueError)
      | (evs, Inr Opened) \<Rightarrow>
          (case fetch_batches reply starts Closed of (evs', err) \<Rightarrow> (evs @ evs', err)))"

definition fetch_gene_info ::
  "(nat \<Rightarrow> nat \<Rightarrow> http_reply) \<Rightarrow> string list \<Rightarrow> nat \<Rightarrow> event list \<times> error option" where
  "fetch_gene_info reply gene_list batch_size =
     (if batch_size = 0 then ([Epost (py_join '','' gene_list)], Some ValueError)
      else case fetch_batches reply
                  (map (\<lambda>i. i * batch_size)
                     [0..<(length gene_list + batch_size - 1) div batch_size])
                  Unbound of
             (evs, err) \<Rightarrow> (Epost (py_join '','' gene_list) # evs, err))"

record args =
  ascii64 :: bool
  nPercent :: pyfloat
  nAbsolute :: int
  leadingQ :: int
  trailingQ :: int
  hitlistSize :: int

record world =
  fastq_file :: "string list"
  random_choice :: "nat \<Rightarrow> nat \<Rightarrow> nat list"
  blast_results :: "blast_record list"
  efetch_reply :: "nat \<Rightarrow> nat \<Rightarrow> http_reply"
  fetch_results :: "gb_record list"

text \<open>The stages of \<^verbatim>\<open>main\<close> up to \<^verbatim>\<open>trim_ends\<close>, which make no remote call.\<close>

definition sample_and_trim :: "args \<Rightarrow> world \<Rightarrow> error + sample_dict" where
  "sample_and_trim a w =
     py_then (random_sample (random_choice w) (fastq_file w) (nAbsolute a) (nPercent a))
       (\<lambda>sample_set.
     py_then (fastq_to_dict (ascii64 a) (fastq_file w) sample_set) (\<lambda>sample_dict.
       trim_ends sample_dict (leadingQ a) (trailingQ a)))"

text \<open>The events of a run and the exception that ended it, if one did. \<open>Report rows\<close>
  carries the lines \<^verbatim>\<open>tabular_report\<close> wrote (none if it raised before opening the file).\<close>

definition main :: "args \<Rightarrow> world \<Rightarrow> event list \<times> error option" where
  "main a w =
     (case sample_and_trim a w of
        Inl e \<Rightarrow> ([], Some e)
      | Inr sample_dict \<Rightarrow>
          (case blast_to_dict (blast_results w) of
             Inl e \<Rightarrow> ([Qblast (write_fasta sample_dict) (hitlistSize a)], Some e)
           | Inr (blast_dict, GeneIDs) \<Rightarrow>
               (case fetch_gene_info (efetch_reply w) GeneIDs 100 of
                  (evs, Some e) \<Rightarrow>
                    (Qblast (write_fasta sample_dict) (hitlistSize a) # evs, Some e)
                | (evs, None) \<Rightarrow>
                    (case fetch_to_dict blast_dict (fetch_results w) of
                       Inl e \<Rightarrow>
                         (Qblast (write_fasta sample_dict) (hitlistSize a) # evs, Some e)
                     | Inr blast_dict' \<Rightarrow>
                         (case tabular_report sample_dict blast_dict' of
                            (rows, err) \<Rightarrow>
                              (Qblast (write_fasta sample_dict) (hitlistSize a) # evs
                                 @ [Report rows], err))))))"

subsection \<open>The trimming as the specification words it\<close>

text \<open>
  For comparison with \<open>trim_entry\<close>: the leading cut is at the first position whose score
  reaches the leading threshold; the trailing cut is at the last position of the scores
  that remain after the leading cut whose score reaches the trailing threshold.
\<close>

definition spec_trim :: "string \<Rightarrow> int list \<Rightarrow> int \<Rightarrow> int \<Rightarrow> (string \<times> int list) option" where
  "spec_trim s ph leading trailing =
     (case find (\<lambda>(i, Q). leading \<le> Q) (enumerate 0 ph) of
        None \<Rightarrow> None
      | Some (i, Q) \<Rightarrow>
          (case find (\<lambda>(j, Q). trailing \<le> Q) (rev (enumerate 0 (drop i ph))) of
             None \<Rightarrow> Some (drop i s, drop i ph)
           | Some (j, Q) \<Rightarrow> Some (take (j + 1) (drop i s), take (j + 1) (drop i ph))))"

subsection \<open>The sampler as the specification words it\<close>

text \<open>
  The effective sample size with \<^verbatim>\<open>round\<close> in place of \<^verbatim>\<open>int\<close>, the claimed range of the
  returned positions, and the failure the specification calls \<^verbatim>\<open>InvalidSampleSize\<close>: one
  of the two \<^verbatim>\<open>sys.exit()\<close> calls of \<open>random_sample\<close>.
\<close>

definition spec_sample_size :: "int \<Rightarrow> pyfloat \<Rightarrow> int \<Rightarrow> error + int" where
  "spec_sample_size requested_absolute requested_percent total_count =
     (if sign_of requested_percent > 0 \<and> requested_percent \<noteq> NaN
      then py_then (py_float total_count) (\<lambda>n.
           py_then (py_float 100) (\<lambda>hundred.
           py_then (py_fdiv (py_fmul requested_percent n) hundred) py_round))
      else Inr requested_absolute)"

definition in_index_range :: "int \<Rightarrow> int list \<Rightarrow> bool" where
  "in_index_range n ps \<longleftrightarrow> list_all (\<lambda>p. 0 \<le> p \<and> p < n) ps"

definition invalid_sample_size :: "error + int list \<Rightarrow> bool" where
  "invalid_sample_size r \<longleftrightarrow>
     r = Inl (SystemExit SampleLargerThanPopulation) \<or> r = Inl (SystemExit SampleOfSizeZero)"

subsection \<open>Vocabulary for the report and the run\<close>

text \<open>
  A dictionary of hits is complete when every hit has all thirteen columns. A header is
  well formed when it starts with \<^verbatim>\<open>@\<close> and holds no tab, as the first field of a FASTQ
  header line does. \<open>has_hit bd k\<close>: the header \<open>k\<close>, without its first character, is
  the \<^verbatim>\<open>SeqID\<close> of a hit; \<open>hits_of bd k\<close> counts those hits. \<open>rows_for rows k\<close> counts
  the lines after the column titles whose first cell is that identifier.
\<close>

definition complete_hits :: "blast_dict \<Rightarrow> bool" where
  "complete_hits bd \<longleftrightarrow>
     list_all (\<lambda>(title, h). list_all (\<lambda>c. map_of h c \<noteq> None) columns) bd"

definition at_header :: "string \<Rightarrow> bool" where
  "at_header k \<longleftrightarrow> (case k of [] \<Rightarrow> False | c # r \<Rightarrow> c = CHR ''@'' \<and> CHR 0x09 \<notin> set r)"

definition well_formed_samples :: "sample_dict \<Rightarrow> bool" where
  "well_formed_samples sd \<longleftrightarrow>
     distinct (map fst sd) \<and> list_all (\<lambda>(k, e). at_header k \<and> sequence e \<noteq> None) sd"

definition has_hit :: "blast_dict \<Rightarrow> string \<Rightarrow> bool" where
  "has_hit bd k \<longleftrightarrow> list_ex (\<lambda>(title, h). map_of h ''SeqID'' = Some (PStr (drop 1 k))) bd"

definition hits_of :: "blast_dict \<Rightarrow> string \<Rightarrow> nat" where
  "hits_of bd k =
     length (filter (\<lambda>(title, h). map_of h ''SeqID'' = Some (PStr (drop 1 k))) bd)"

definition hit_cells :: "hit \<Rightarrow> row" where
  "hit_cells h = map (\<lambda>c. the (map_of h c)) columns"

definition fallback_cells :: "string \<Rightarrow> sample_entry \<Rightarrow> row" where
  "fallback_cells k e =
     [PStr (drop 1 k), PStr (the (sequence e)), PInt (int (length (the (sequence e)))),
      PStr no_hit_marker]"

definition rows_for :: "row list \<Rightarrow> string \<Rightarrow> nat" where
  "rows_for rows k =
     length (filter (\<lambda>r. case r of [] \<Rightarrow> False | c # cs \<Rightarrow> c = PStr (drop 1 k))
               (drop 1 rows))"

text \<open>The fallback line as the specification words it: the trimmed sequence (empty when
  unset) and its length.\<close>

definition spec_fallback_row :: "string \<Rightarrow> sample_entry \<Rightarrow> row" where
  "spec_fallback_row header e =
     (let trimmed = (case trimmed_sequence e of None \<Rightarrow> [] | Some ts \<Rightarrow> ts)
      in [PStr (drop 1 header), PStr trimmed, PInt (int (length trimmed)),
          PStr no_hit_marker])"

text \<open>The keys that \<open>blast_to_dict\<close> stores in a hit.\<close>

definition blast_keys :: "string set" where
  "blast_keys = {''SeqID'', ''Sequence'', ''SeqLength'', ''Description'', ''Accession'', ''Db'',
                 ''Score'', ''E_value'', ''Percent_Identity''}"

text \<open>The events of the metadata fetch.\<close>

fun is_fetch_event :: "event \<Rightarrow> bool" where
  "is_fetch_event (Epost ids) = True"
| "is_fetch_event (Efetch start) = True"
| "is_fetch_event (Qblast fasta n) = False"
| "is_fetch_event (Report rows) = False"

subsection \<open>Example data\<close>

text \<open>A read as \<open>fastq_to_dict\<close> stores it under offset 33, before trimming.\<close>

definition read_entry :: "string \<Rightarrow> string \<Rightarrow> sample_entry" where
  "read_entry s a = \<lparr>sequence = Some s, ascii = Some a,
                      phred = Some (map (\<lambda>x. of_char x - 33) a),
                      trimmed_phred = None, trimmed_sequence = None\<rparr>"

text \<open>A FASTQ file of two reads, line by line.\<close>

definition example_fastq :: "string list" where
  "example_fastq = map (\<lambda>l. l @ [CHR 0x0A])
     [''@read1'', ''ACGTA'', ''+'', ''!??!!'', ''@read2'', ''GATTACA'', ''+'', ''IIIIIII'']"

text \<open>A random choice: the \<open>k\<close> highest of the \<open>n\<close> indices, the highest first.\<close>

definition highest_first :: "nat \<Rightarrow> nat \<Rightarrow> nat list" where
  "highest_first n k = take k (rev [0..<n])"

text \<open>A FASTQ file of one read whose only base has the score 10.\<close>

definition low_quality_fastq :: "string list" where
  "low_quality_fastq = map (\<lambda>l. l @ [CHR 0x0A]) [''@read1'', ''A'', ''+'', ''+'']"

text \<open>The two reads of \<open>example_fastq\<close> after \<open>trim_ends\<close> with both thresholds 20, the
  default arguments with a sample of 2, and a run in which the search answers with no
  alignment at all.\<close>

definition trimmed_read1 :: sample_entry where
  "trimmed_read1 = (read_entry ''ACGTA'' ''!??!!'')
     \<lparr>trimmed_phred := Some [30, 30, 0], trimmed_sequence := Some ''CGT''\<rparr>"

definition trimmed_read2 :: sample_entry where
  "trimmed_read2 = (read_entry ''GATTACA'' ''IIIIIII'')
     \<lparr>trimmed_phred := Some [40, 40, 40, 40, 40, 40, 40],
       trimmed_sequence := Some ''GATTACA''\<rparr>"

definition example_samples :: sample_dict where
  "example_samples = [(''@read1'', trimmed_read1), (''@read2'', trimmed_read2)]"

definition example_args :: args where
  "example_args = \<lparr>ascii64 = False, nPercent = Fin 0, nAbsolute = 2, leadingQ = 20,
                    trailingQ = 20, hitlistSize = 1\<rparr>"

definition silent_run :: world where
  "silent_run = \<lparr>fastq_file = example_fastq, random_choice = highest_first,
      blast_results = [\<lparr>record_query = ''read1'', record_alignments = []\<rparr>,
                       \<lparr>record_query = ''read2'', record_alignments = []\<rparr>],
      efetch_reply = (\<lambda>start attempt. Answered), fetch_results = []\<rparr>"

text \<open>Hits as \<open>blast_to_dict\<close> stores them, the four keys \<open>fetch_to_dict\<close> adds, and
  dictionaries of hits: two complete hits of the first read, one complete hit of the
  second read, and one hit of each read before and after the metadata of the first are
  merged.\<close>

definition found_hit :: "string \<Rightarrow> string \<Rightarrow> string \<Rightarrow> string \<Rightarrow> hit" where
  "found_hit query s description accession =
     [(''SeqID'', PStr query), (''Sequence'', PStr s), (''SeqLength'', PInt (int (length s))),
      (''Description'', PStr description), (''Accession'', PStr accession),
      (''Db'', PStr ''gb''), (''Score'', PFloat (Fin 6)), (''E_value'', PFloat (Fin (1 / 4))),
      (''Percent_Identity'', PFloat (Fin 100))]"

definition bacterium :: hit where
  "bacterium =
     [(''Organism'', PStr ''Escherichia coli''), (''Source'', PStr ''Escherichia coli''),
      (''Domain'', PStr ''Bacteria''), (''Taxonomy'', PList [''Bacteria'', ''Proteobacteria''])]"

definition two_hits_read1 :: blast_dict where
  "two_hits_read1 =
     [(''gi|123|gb|AB1.1|first'', found_hit ''read1'' ''CGT'' ''first'' ''AB1.1'' @ bacterium),
      (''gi|456|gb|CD2.2|second'', found_hit ''read1'' ''CGT'' ''second'' ''CD2.2'' @ bacterium)]"

definition one_hit_read2 :: blast_dict where
  "one_hit_read2 =
     [(''gi|789|gb|EF3.3|third'',
       found_hit ''read2'' ''GATTACA'' ''third'' ''EF3.3'' @ bacterium)]"

definition example_search :: "blast_record list" where
  "example_search =
     [\<lparr>record_query = ''read1'', record_alignments =
         [\<lparr>align_title = ''gi|123|gb|AB1.1|first'', align_hsps =
             [\<lparr>hsp_identities = 3, hsp_align_length = 3, hsp_query = ''CGT'',
               hsp_score = Fin 6, hsp_expect = Fin (1 / 4)\<rparr>]\<rparr>]\<rparr>,
      \<lparr>record_query = ''read2'', record_alignments =
         [\<lparr>align_title = ''gi|789|gb|EF3.3|third'', align_hsps =
             [\<lparr>hsp_identities = 7, hsp_align_length = 7, hsp_query = ''GATTACA'',
               hsp_score = Fin 6, hsp_expect = Fin (1 / 4)\<rparr>]\<rparr>]\<rparr>]"

definition example_hits :: blast_dict where
  "example_hits =
     [(''gi|123|gb|AB1.1|first'', found_hit ''read1'' ''CGT'' ''first'' ''AB1.1''),
      (''gi|789|gb|EF3.3|third'', found_hit ''read2'' ''GATTACA'' ''third'' ''EF3.3'')]"

definition merged_hits :: blast_dict where
  "merged_hits =
     [(''gi|123|gb|AB1.1|first'', found_hit ''read1'' ''CGT'' ''first'' ''AB1.1'' @ bacterium),
      (''gi|789|gb|EF3.3|third'', found_hit ''read2'' ''GATTACA'' ''third'' ''EF3.3'')]"

definition example_metadata :: "gb_record list" where
  "example_metadata =
     [\<lparr>gb_id = ''AB1.1'', gb_organism = Some ''Escherichia coli'',
       gb_source = Some ''Escherichia coli'',
       gb_taxonomy = Some [''Bacteria'', ''Proteobacteria'']\<rparr>]"

section \<open>Properties\<close>

subsection \<open>Strings\<close>

lemma py_split_hd:
  "py_split sep s \<noteq> [] \<and> hd (py_split sep s) = takeWhile (\<lambda>c. c \<noteq> sep) s"
  by (induction s) (auto split: list.splits)

lemma first_field_split: "py_nth (py_split CHR 0x09 s) 0 = Inr (first_field s)"
  using py_split_hd [of "CHR 0x09" s]
  by (cases "py_split CHR 0x09 s") (auto simp: py_nth_def first_field_def)

subsection \<open>End trimming\<close>

lemma trim_entry_again:
  "trim_entry e l t = Inr e' \<Longrightarrow> trim_entry e' l t = Inr e'"
  by (auto simp: trim_entry_def py_then_def trim_leading_def trim_trailing_def
           split: option.splits prod.splits sum.splits)

text \<open>
  What \<open>trim_entry\<close> stores when both loops find a position: the leading position \<open>i\<close>
  and the trailing position \<open>j\<close> are both positions of the raw scores, and the stored
  scores are \<open>take (j + 1) (drop i ph)\<close>, the raw positions \<open>i\<close> to \<open>i + j\<close>.
\<close>

lemma trim_entry_both_found:
  assumes "phred e = Some ph" and "sequence e = Some s"
    and "find (\<lambda>(base, Q). \<not> Q < l) (enumerate 0 ph) = Some (i, q)"
    and "find (\<lambda>(base, Q). \<not> Q < t) (rev (enumerate 0 ph)) = Some (j, q')"
  shows "trim_entry e l t =
           Inr (e\<lparr>trimmed_phred := Some (take (j + 1) (drop i ph)),
                  trimmed_sequence := Some (take (j + 1) (drop i s))\<rparr>)"
  using assms by (simp add: trim_entry_def py_then_def trim_leading_def trim_trailing_def)

text \<open>
  C1 (defect in the code). The read \<^verbatim>\<open>ACGTA\<close> with scores \<open>[0, 30, 30, 0, 0]\<close> and both
  thresholds 20: the first score that reaches 20 is at position 1 and the last one at
  position 2, so the claimed result is \<^verbatim>\<open>CG\<close> with scores \<open>[30, 30]\<close>. \<open>trim_ends\<close> cuts
  the already shortened lists at the position found in the raw scores and keeps \<^verbatim>\<open>CGT\<close>
  with scores \<open>[30, 30, 0]\<close>: a trailing base of score 0 survives.
\<close>

theorem trim_ends_keeps_low_trailing_base:
  "fastq_to_dict False example_fastq [0] = Inr [(''@read1'', read_entry ''ACGTA'' ''!??!!'')]
   \<and> phred (read_entry ''ACGTA'' ''!??!!'') = Some [0, 30, 30, 0, 0]
   \<and> trim_ends [(''@read1'', read_entry ''ACGTA'' ''!??!!'')] 20 20 =
       Inr [(''@read1'', (read_entry ''ACGTA'' ''!??!!'')
              \<lparr>trimmed_phred := Some [30, 30, 0], trimmed_sequence := Some ''CGT''\<rparr>)]
   \<and> spec_trim ''ACGTA'' [0, 30, 30, 0, 0] 20 20 = Some (''CG'', [30, 30])"
  by code_simp

text \<open>
  C7 (defect in the code). The read \<^verbatim>\<open>A\<close> with the single score 10, leading threshold
  20 and trailing threshold 5: no score reaches the leading threshold, so nothing is
  stored under \<^verbatim>\<open>trimmed_phred\<close>; the second loop finds the score 10, which reaches 5,
  and reads \<^verbatim>\<open>trimmed_phred\<close>: \<open>KeyError\<close>. The claim says that trimming leaves the
  trimmed fields unset for every trailing threshold and never raises.
\<close>

theorem trim_ends_raises_below_leading:
  "fastq_to_dict False low_quality_fastq [0] = Inr [(''@read1'', read_entry ''A'' ''+'')]
   \<and> phred (read_entry ''A'' ''+'') = Some [10]
   \<and> trim_ends [(''@read1'', read_entry ''A'' ''+'')] 20 5 = Inl KeyError"
  by code_simp

text \<open>When no score reaches either threshold the entry is returned as it is.\<close>

lemma trim_entry_all_below:
  assumes "phred e = Some ph" and "\<forall>Q \<in> set ph. Q < l \<and> Q < t"
  shows "trim_entry e l t = Inr e"
proof -
  have "find (\<lambda>(base, Q). \<not> Q < l) (enumerate 0 ph) = None"
    using assms(2) by (auto simp: find_None_iff in_set_enumerate_eq)
  moreover have "find (\<lambda>(base, Q). \<not> Q < t) (rev (enumerate 0 ph)) = None"
    using assms(2) by (auto simp: find_None_iff in_set_enumerate_eq)
  ultimately show ?thesis
    using assms(1) by (simp add: trim_entry_def py_then_def trim_leading_def trim_trailing_def)
qed

text \<open>
  C9. Trimming is idempotent: \<open>trim_ends\<close> reads the raw \<^verbatim>\<open>phred\<close> and \<^verbatim>\<open>sequence\<close>, which
  it never changes, so running it again on the dictionary it returned, with the same
  thresholds, returns that dictionary unchanged (trimmed sequence and trimmed scores
  included).
\<close>

theorem trim_ends_idempotent:
  "trim_ends d l t = Inr d' \<Longrightarrow> trim_ends d' l t = Inr d'"
proof (induction d arbitrary: d')
  case Nil
  then show ?case by simp
next
  case (Cons p d)
  obtain key e where p: "p = (key, e)" by (cases p)
  from Cons.prems p obtain e' d0 where
    e': "trim_entry e l t = Inr e'" and d0: "trim_ends d l t = Inr d0"
    and d': "d' = (key, e') # d0"
    by (auto simp: py_then_def split: sum.splits)
  from trim_entry_again[OF e'] Cons.IH[OF d0] d' show ?case
    by (simp add: py_then_def)
qed

theorem trim_ends_idempotent_witness:
  "trim_ends [(''@read1'', read_entry ''ACGTA'' ''!??!!'')] 20 20 =
     Inr [(''@read1'', (read_entry ''ACGTA'' ''!??!!'')
             \<lparr>trimmed_phred := Some [30, 30, 0], trimmed_sequence := Some ''CGT''\<rparr>)]
   \<and> trim_ends [(''@read1'', (read_entry ''ACGTA'' ''!??!!'')
             \<lparr>trimmed_phred := Some [30, 30, 0], trimmed_sequence := Some ''CGT''\<rparr>)] 20 20 =
     Inr [(''@read1'', (read_entry ''ACGTA'' ''!??!!'')
             \<lparr>trimmed_phred := Some [30, 30, 0], trimmed_sequence := Some ''CGT''\<rparr>)]"
proof -
  have h: "trim_ends [(''@read1'', read_entry ''ACGTA'' ''!??!!'')] 20 20 =
     Inr [(''@read1'', (read_entry ''ACGTA'' ''!??!!'')
             \<lparr>trimmed_phred := Some [30, 30, 0], trimmed_sequence := Some ''CGT''\<rparr>)]"
    by (simp add: read_entry_def py_then_def trim_entry_def trim_leading_def trim_trailing_def)
  from trim_ends_idempotent [OF h] h show ?thesis by simp
qed

text \<open>
  Trimming a new read made of the trimmed sequence and the trimmed scores is another
  operation: \<open>trim_ends\<close> has no such step, and because of the cut described under C1 it
  would shorten \<^verbatim>\<open>CGT\<close> with scores \<open>[30, 30, 0]\<close> once more.
\<close>

lemma trim_of_trimmed_lists:
  "phred (read_entry ''CGT'' ''??!'') = Some [30, 30, 0]
   \<and> trim_entry (read_entry ''CGT'' ''??!'') 20 20 =
       Inr ((read_entry ''CGT'' ''??!'')
              \<lparr>trimmed_phred := Some [30, 30], trimmed_sequence := Some ''CG''\<rparr>)"
  by code_simp

subsection \<open>Sampling\<close>

lemma pow2_pos: "0 < pow2 k"
  by (simp add: pow2_def)

lemma round_half_even_nonneg: "0 \<le> x \<Longrightarrow> 0 \<le> round_half_even x"
  by (auto simp: round_half_even_def Let_def)

lemma round_half_even_le: "of_int (round_half_even x) \<le> x + 1 / 2"
proof -
  have f: "of_int \<lfloor>x\<rfloor> \<le> x" by simp
  show ?thesis
  proof (cases "x - of_int \<lfloor>x\<rfloor> < 1 / 2")
    case True
    then have "of_int (round_half_even x) = (of_int \<lfloor>x\<rfloor> :: rat)"
      by (simp add: round_half_even_def Let_def)
    with f show ?thesis by linarith
  next
    case False
    then have "of_int (round_half_even x) \<le> (of_int \<lfloor>x\<rfloor> :: rat) + 1"
      by (simp add: round_half_even_def Let_def)
    with False show ?thesis by linarith
  qed
qed

lemma round_half_even_of_int: "round_half_even (of_int z) = z"
  by (simp add: round_half_even_def)

lemma pow2_power_int: "pow2 k = power_int 2 k"
proof (cases "0 \<le> k")
  case True
  then show ?thesis by (simp add: pow2_def power_int_def)
next
  case False
  have "inverse (2::rat) ^ nat (- k) = 1 / 2 ^ nat (- k)"
    by (simp only: inverse_eq_divide power_one_over)
  with False show ?thesis by (simp only: pow2_def power_int_def if_False)
qed

lemma ilog2_le:
  assumes "0 < x"
  shows "pow2 (ilog2 x) \<le> x"
proof -
  obtain a b where q: "quotient_of x = (a, b)" by (cases "quotient_of x")
  then have b: "0 < b" and x: "x = of_int a / of_int b"
    by (simp_all add: quotient_of_denom_pos quotient_of_div)
  with assms have a: "0 < a" by (simp add: zero_less_divide_iff)
  from bitlen_bounds [OF a] have "(2::int) ^ nat (bitlen a - 1) \<le> a" by simp
  then have "(of_int ((2::int) ^ nat (bitlen a - 1)) :: rat) \<le> of_int a"
    by (simp only: of_int_le_iff)
  moreover have "1 \<le> bitlen a" using a by (simp add: bitlen_alt_def)
  ultimately have la: "power_int (2::rat) (bitlen a - 1) \<le> of_int a"
    by (simp add: power_int_def)
  from bitlen_bounds [OF b] have "b < (2::int) ^ nat (bitlen b)" by simp
  then have "(of_int b :: rat) < of_int ((2::int) ^ nat (bitlen b))"
    by (simp only: of_int_less_iff)
  then have ub: "of_int b < power_int (2::rat) (bitlen b)"
    using bitlen_nonneg [of b] by (simp add: power_int_def)
  have "power_int (2::rat) (bitlen a - bitlen b - 1)
          = power_int 2 (bitlen a - 1) / power_int 2 (bitlen b)"
    using power_int_diff [of "2::rat" "bitlen a - 1" "bitlen b"] by (simp add: algebra_simps)
  also have "\<dots> \<le> of_int a / power_int 2 (bitlen b)"
    using la by (simp add: divide_right_mono)
  also have "\<dots> \<le> of_int a / of_int b"
    using ub a b by (simp add: frac_le)
  finally have "pow2 (bitlen a - bitlen b - 1) \<le> x"
    by (simp add: pow2_power_int x)
  with q show ?thesis by (simp add: ilog2_def Let_def)
qed

lemma ilog2_greater:
  assumes "0 < x"
  shows "x < pow2 (ilog2 x + 1)"
proof -
  obtain a b where q: "quotient_of x = (a, b)" by (cases "quotient_of x")
  then have b: "0 < b" and x: "x = of_int a / of_int b"
    by (simp_all add: quotient_of_denom_pos quotient_of_div)
  with assms have a: "0 < a" by (simp add: zero_less_divide_iff)
  from bitlen_bounds [OF a] have "a < (2::int) ^ nat (bitlen a)" by simp
  then have "(of_int a :: rat) < of_int ((2::int) ^ nat (bitlen a))"
    by (simp only: of_int_less_iff)
  then have ua: "of_int a < power_int (2::rat) (bitlen a)"
    using bitlen_nonneg [of a] by (simp add: power_int_def)
  from bitlen_bounds [OF b] have "(2::int) ^ nat (bitlen b - 1) \<le> b" by simp
  then have "(of_int ((2::int) ^ nat (bitlen b - 1)) :: rat) \<le> of_int b"
    by (simp only: of_int_le_iff)
  moreover have "1 \<le> bitlen b" using b by (simp add: bitlen_alt_def)
  ultimately have lb: "power_int (2::rat) (bitlen b - 1) \<le> of_int b"
    by (simp add: power_int_def)
  have pp: "0 < power_int (2::rat) (bitlen b - 1)"
    by (rule zero_less_power_int) simp
  have "of_int a / of_int b \<le> of_int a / power_int (2::rat) (bitlen b - 1)"
    using lb a pp by (intro frac_le) simp_all
  also have "\<dots> < power_int 2 (bitlen a) / power_int (2::rat) (bitlen b - 1)"
    using ua pp by (rule divide_strict_right_mono)
  also have "\<dots> = power_int (2::rat) (bitlen a - bitlen b + 1)"
    using power_int_diff [of "2::rat" "bitlen a" "bitlen b - 1"] by (simp add: algebra_simps)
  finally have "x < pow2 (bitlen a - bitlen b + 1)"
    by (simp add: pow2_power_int x)
  with q show ?thesis by (auto simp: ilog2_def Let_def)
qed

lemma ilog2_less:
  assumes "0 < x" and "x < pow2 n"
  shows "ilog2 x < n"
proof (rule ccontr)
  assume "\<not> ilog2 x < n"
  then have "n \<le> ilog2 x" by simp
  then have "power_int (2::rat) n \<le> power_int 2 (ilog2 x)"
    by (intro power_int_increasing) simp_all
  with ilog2_le [OF assms(1)] assms(2) show False by (simp add: pow2_power_int)
qed


lemma ilog2_ge:
  assumes "0 < x" and "pow2 n \<le> x"
  shows "n \<le> ilog2 x"
proof (rule ccontr)
  assume "\<not> n \<le> ilog2 x"
  then have "ilog2 x + 1 \<le> n" by simp
  then have "power_int (2::rat) (ilog2 x + 1) \<le> power_int 2 n"
    by (intro power_int_increasing) simp_all
  with ilog2_greater [OF assms(1)] assms(2) show False by (simp add: pow2_power_int)
qed

lemma pow2_mono: "i \<le> j \<Longrightarrow> pow2 i \<le> pow2 j"
  unfolding pow2_power_int by (intro power_int_increasing) simp_all

lemma pow2_add: "pow2 (i + j) = pow2 i * pow2 j"
  unfolding pow2_power_int by (simp add: power_int_add)

text \<open>Rounding keeps the sign and moves a number by less than its own size plus one.\<close>

lemma rnd_nonneg:
  assumes "0 \<le> x"
  shows "0 \<le> rnd x"
proof (cases "x = 0")
  case True
  then show ?thesis by (simp add: rnd_def)
next
  case False
  let ?s = "52 - max (ilog2 \<bar>x\<bar>) (- 1022)"
  from False assms have pos: "0 < x" by simp
  then have "0 \<le> \<bar>x\<bar> * pow2 ?s"
    using pow2_pos [of ?s] by simp
  then have "0 \<le> round_half_even (\<bar>x\<bar> * pow2 ?s)"
    by (rule round_half_even_nonneg)
  with pos pow2_pos [of ?s] show ?thesis
    by (simp add: rnd_def Let_def)
qed

lemma rnd_le:
  assumes "0 \<le> x"
  shows "rnd x \<le> 2 * x + 1"
proof (cases "x = 0")
  case True
  then show ?thesis by (simp add: rnd_def)
next
  case False
  define e where "e = max (ilog2 \<bar>x\<bar>) (- 1022)"
  define s where "s = 52 - e"
  from False assms have pos: "0 < x" by simp
  have ps: "0 < pow2 s" by (rule pow2_pos)
  have r: "rnd x = of_int (round_half_even (x * pow2 s)) / pow2 s"
    using pos by (simp add: rnd_def Let_def e_def s_def)
  have "of_int (round_half_even (x * pow2 s)) \<le> x * pow2 s + 1 / 2"
    by (rule round_half_even_le)
  then have "rnd x \<le> (x * pow2 s + 1 / 2) / pow2 s"
    using ps by (simp add: r divide_right_mono)
  also have "\<dots> = x + 1 / (2 * pow2 s)"
    using ps by (simp add: field_simps)
  finally have 1: "rnd x \<le> x + 1 / (2 * pow2 s)" .
  have "pow2 e * pow2 s = pow2 52"
    using pow2_add [of e s] by (simp add: s_def)
  then have "pow2 e = pow2 52 / pow2 s"
    using ps by (simp add: field_simps)
  moreover have "(1::rat) \<le> pow2 52 / 2" by (simp add: pow2_def)
  ultimately have "1 / (2 * pow2 s) \<le> pow2 e"
    using ps by (simp add: field_simps)
  moreover have "pow2 e \<le> x + 1"
  proof (cases "- 1022 \<le> ilog2 \<bar>x\<bar>")
    case True
    then have "e = ilog2 x" using pos by (simp add: e_def)
    with ilog2_le [OF pos] show ?thesis by simp
  next
    case False
    then have "e = - 1022" by (simp add: e_def)
    moreover have "pow2 (- 1022) \<le> 1"
      using pow2_mono [of "- 1022" 0] by (simp add: pow2_def [of 0])
    ultimately show ?thesis using pos by simp
  qed
  ultimately show ?thesis using 1 by simp
qed

lemma rnd_exact:
  assumes "0 < x" and "x * pow2 (52 - max (ilog2 x) (- 1022)) = of_int z"
  shows "rnd x = x"
proof -
  have "pow2 (52 - max (ilog2 x) (- 1022)) \<noteq> 0" by (simp add: pow2_def)
  with assms show ?thesis
    by (simp add: rnd_def Let_def round_half_even_of_int nonzero_divide_eq_eq)
qed

lemma ilog2_zero: "ilog2 0 = - 2"
  by code_simp

lemma fl_finite:
  assumes "0 \<le> x" and "x \<le> pow2 1022"
  shows "fl x = Fin (rnd x)"
proof -
  have "pow2 2 = 4" and "pow2 1 = 2" by (simp_all add: pow2_def)
  with pow2_add [of 2 1022] pow2_mono [of 1 1022]
  have "pow2 1024 = 4 * pow2 1022" and "2 \<le> pow2 1022" by simp_all
  then have "2 * x + 1 < pow2 1024"
    using assms(2) by simp
  with rnd_le [OF assms(1)] have less: "rnd x < pow2 1024" by simp
  have "ilog2 \<bar>rnd x\<bar> < 1024"
  proof (cases "rnd x = 0")
    case True
    then show ?thesis by (simp add: ilog2_zero)
  next
    case False
    with rnd_nonneg [OF assms(1)] have "0 < rnd x" by simp
    with less ilog2_less [of "rnd x" 1024] show ?thesis by simp
  qed
  then show ?thesis by (simp add: fl_def Let_def)
qed

text \<open>The product \<open>2 ^ 1023 * 2\<close> does not fit.\<close>

lemma fl_overflow: "fl (pow2 1023 * 2) = PosInf"
proof -
  have two: "pow2 1 = 2" by (simp add: pow2_def)
  with pow2_add [of 1023 1] have x: "pow2 1023 * 2 = pow2 1024" by simp
  have pos: "0 < pow2 1024" by (rule pow2_pos)
  have "1024 \<le> ilog2 (pow2 1024)" using pos by (rule ilog2_ge) simp
  moreover have "pow2 1024 < pow2 1025"
    using pow2_add [of 1024 1] pos by (simp add: two)
  with pos have "ilog2 (pow2 1024) < 1025" by (rule ilog2_less)
  ultimately have e: "ilog2 (pow2 1024) = 1024" by simp
  have "pow2 1024 * pow2 (- 972) = pow2 52"
    using pow2_add [of 1024 "- 972"] by simp
  also have "\<dots> = of_int (2 ^ 52)" by (simp add: pow2_def)
  finally have "pow2 1024 * pow2 (52 - max (ilog2 (pow2 1024)) (- 1022)) = of_int (2 ^ 52)"
    by (simp add: e)
  with pos have "rnd (pow2 1024) = pow2 1024" by (rule rnd_exact)
  with pos e show ?thesis by (simp add: fl_def x)
qed

text \<open>
  A quarter of an integer below \<open>2 ^ 53\<close> is a float, so for a file of fewer than
  \<open>2 ^ 53\<close> lines \<^verbatim>\<open>int(num_lines/4)\<close> is the integer quotient.
\<close>

lemma rnd_quarter:
  assumes "0 \<le> m" and "m < 2 ^ 53"
  shows "rnd (of_int m / 4) = of_int m / 4"
proof (cases "m = 0")
  case True
  then show ?thesis by (simp add: rnd_def)
next
  case False
  with assms have pos: "(0::rat) < of_int m / 4" by simp
  from False assms(1) have "1 \<le> m" by simp
  then have "(1::rat) \<le> of_int m" by (simp only: of_int_1_le_iff)
  then have "pow2 (- 2) \<le> of_int m / 4" by (simp add: pow2_def)
  from ilog2_ge [OF pos this] have low: "max (ilog2 (of_int m / 4)) (- 1022) = ilog2 (of_int m / 4)"
    by simp
  from assms(2) have "(of_int m :: rat) < of_int (2 ^ 53)" by (simp only: of_int_less_iff)
  then have "(of_int m :: rat) / 4 < pow2 51" by (simp add: pow2_def)
  from ilog2_less [OF pos this] have "0 \<le> 50 - ilog2 (of_int m / 4)" by simp
  then obtain n where n: "50 - ilog2 (of_int m / 4) = int n"
    using nonneg_int_cases by blast
  then have s: "52 - ilog2 (of_int m / 4) = int n + 2" by simp
  have "pow2 (int n + 2) = 4 * 2 ^ n"
    by (simp add: pow2_def nat_add_distrib)
  then have "of_int m / 4 * pow2 (int n + 2) = (of_int (m * 2 ^ n) :: rat)"
    by simp
  then have "of_int m / 4 * pow2 (52 - max (ilog2 (of_int m / 4)) (- 1022))
      = (of_int (m * 2 ^ n) :: rat)"
    by (simp only: s low)
  with pos show ?thesis by (rule rnd_exact)
qed

lemma num_sequences_div:
  assumes "0 \<le> m" and "m < 2 ^ 53"
  shows "num_sequences m = Inr (m div 4)"
proof -
  have "\<lfloor>(of_int m :: rat) / of_int 4\<rfloor> = m div 4" by (rule floor_divide_of_int_eq)
  then have 1: "py_int (Fin (of_int m / 4)) = Inr (m div 4)"
    using assms(1) by simp
  from assms(2) have "m \<le> 2 ^ 53" by simp
  then have "(of_int m :: rat) \<le> of_int (2 ^ 53)" by (simp only: of_int_le_iff)
  then have "(of_int m :: rat) / 4 \<le> pow2 53" using assms(1) by (simp add: pow2_def)
  with pow2_mono [of 53 1022] have "(of_int m :: rat) / 4 \<le> pow2 1022" by simp
  moreover have "(0::rat) \<le> of_int m / 4" using assms(1) by simp
  ultimately have "fl (of_int m / 4) = Fin (rnd (of_int m / 4))" by (intro fl_finite)
  then have "fl (of_int m / 4) = Fin (of_int m / 4)" by (simp only: rnd_quarter [OF assms])
  then have "num_sequences m = py_int (Fin (of_int m / 4))"
    by (simp add: num_sequences_def py_truediv_def py_then_def finite_or_overflow_def)
  with 1 show ?thesis by simp
qed

lemma py_float_100: "py_float 100 = Inr (Fin 100)"
  by code_simp

lemma py_float_finite:
  assumes "0 \<le> i" and "i \<le> 2 ^ 1000"
  shows "py_float i = Inr (Fin (rnd (of_int i)))"
proof -
  have "(of_int i :: rat) \<le> of_int (2 ^ 1000)" using assms(2) by (simp only: of_int_le_iff)
  also have "\<dots> = pow2 1000" by (simp add: pow2_def)
  also have "\<dots> \<le> pow2 1022" by (rule pow2_mono) simp
  finally have "fl (of_int i) = Fin (rnd (of_int i))"
    using assms(1) by (intro fl_finite) simp_all
  then show ?thesis by (simp add: py_float_def finite_or_overflow_def)
qed

text \<open>A file of no lines has no record. The example choice keeps the contract of the
  library, and under that contract the call returns \<open>k\<close> distinct indices of the
  range.\<close>

lemma num_sequences_zero: "num_sequences 0 = Inr 0"
  by code_simp

lemma highest_first_choice: "is_choice highest_first"
  by (auto simp: is_choice_def highest_first_def dest: in_set_takeD)

lemma py_random_sample_contract:
  assumes "is_choice pick" and "0 \<le> k" and "k \<le> n"
  shows "\<exists>xs. py_random_sample pick n k = Inr xs \<and> int (length xs) = k \<and> distinct xs
           \<and> (\<forall>x \<in> set xs. 0 \<le> x \<and> x < n)"
proof -
  from assms(2,3) have le: "nat k \<le> nat n" by simp
  with assms(1) have 1: "length (pick (nat n) (nat k)) = nat k"
    and 2: "distinct (pick (nat n) (nat k))"
    and 3: "\<forall>x \<in> set (pick (nat n) (nat k)). x < nat n"
    by (simp_all add: is_choice_def)
  have "py_random_sample pick n k = Inr (map int (pick (nat n) (nat k)))"
    using assms(2,3) by (simp add: py_random_sample_def)
  moreover have "int (length (map int (pick (nat n) (nat k)))) = k"
    using 1 assms(2) by simp
  moreover have "distinct (map int (pick (nat n) (nat k)))"
    using 2 by (simp add: distinct_map)
  moreover have "\<forall>x \<in> set (map int (pick (nat n) (nat k))). 0 \<le> x \<and> x < n"
    using 3 by auto
  ultimately show ?thesis by blast
qed

text \<open>
  C4 (corrected). The claim has \<^verbatim>\<open>round\<close>; line 96 has \<^verbatim>\<open>int\<close>, which truncates. With 4
  records and 43.75 percent the quotient is exactly 1.75: the script samples 1 read where
  the claim says 2.
\<close>

theorem sample_size_not_rounded:
  "sample_size 100 (Fin (175 / 4)) 4 = Inr 1 \<and> spec_sample_size 100 (Fin (175 / 4)) 4 = Inr 2"
  by code_simp

text \<open>
  C4 as amended: for a record count from 0 to \<open>2 ^ 1000\<close> and a percentage from 0 to
  100, the range the specification gives it, the effective sample size is the float
  quotient \<^verbatim>\<open>n_percent * num_sequences / 100\<close> truncated to an integer (its floor, since it
  is not negative) when the percentage is positive, and \<^verbatim>\<open>n_absolute\<close> otherwise. In
  that range no operation overflows: the product and the quotient are the rounded exact
  values.
\<close>

theorem sample_size_truncates:
  assumes "0 \<le> p" and "p \<le> 100" and "0 \<le> N" and "N \<le> 2 ^ 1000"
  shows "sample_size a (Fin p) N =
           Inr (if 0 < p then \<lfloor>rnd (rnd (p * rnd (of_int N)) / 100)\<rfloor> else a)"
proof -
  define B where "B = pow2 1000"
  define n where "n = rnd (of_int N)"
  define q where "q = rnd (p * n)"
  have B1: "1 \<le> B" using pow2_mono [of 0 1000] by (simp add: B_def pow2_def)
  have top: "pow2 1022 = 4194304 * B"
    using pow2_add [of 22 1000] by (simp add: B_def) (simp add: pow2_def)
  have "(of_int N :: rat) \<le> of_int (2 ^ 1000)" using assms(4) by (simp only: of_int_le_iff)
  then have NB: "(of_int N :: rat) \<le> B" by (simp add: B_def pow2_def)
  have N0: "(0::rat) \<le> of_int N" using assms(3) by simp
  have fN: "py_float N = Inr (Fin n)"
    unfolding n_def using assms(3,4) by (rule py_float_finite)
  have n0: "0 \<le> n" unfolding n_def using N0 by (rule rnd_nonneg)
  have "n \<le> 2 * of_int N + 1" unfolding n_def using N0 by (rule rnd_le)
  with NB have nB: "n \<le> 2 * B + 1" by simp
  have pn0: "0 \<le> p * n" using assms(1) n0 by simp
  have "p * n \<le> 100 * (2 * B + 1)"
    using assms(1,2) n0 nB by (intro mult_mono) simp_all
  then have pnB: "p * n \<le> 200 * B + 100" by simp
  with B1 top have "p * n \<le> pow2 1022" by simp
  with pn0 have fpn: "fl (p * n) = Fin q" unfolding q_def by (rule fl_finite)
  have q0: "0 \<le> q" unfolding q_def using pn0 by (rule rnd_nonneg)
  have "q \<le> 2 * (p * n) + 1" unfolding q_def using pn0 by (rule rnd_le)
  with pnB have qB: "q \<le> 400 * B + 201" by simp
  have d0: "0 \<le> q / 100" using q0 by simp
  have "q / 100 \<le> q" using q0 by simp
  with qB B1 top have "q / 100 \<le> pow2 1022" by simp
  with d0 have fd: "fl (q / 100) = Fin (rnd (q / 100))" by (rule fl_finite)
  have r0: "0 \<le> rnd (q / 100)" using d0 by (rule rnd_nonneg)
  show ?thesis
  proof (cases "p = 0")
    case True
    then show ?thesis by (simp add: sample_size_def)
  next
    case False
    with assms(1) have "0 < p" by simp
    with fN fpn fd r0 show ?thesis
      by (simp add: sample_size_def py_then_def py_float_100 n_def [symmetric] q_def [symmetric])
  qed
qed

theorem sample_size_truncates_witness:
  "(0::rat) \<le> 175 / 4 \<and> (175 / 4 :: rat) \<le> 100 \<and> (0::int) \<le> 4 \<and> (4::int) \<le> 2 ^ 1000
   \<and> sample_size 100 (Fin (175 / 4)) 4 = Inr 1
   \<and> \<lfloor>rnd (rnd (175 / 4 * rnd (of_int 4)) / 100)\<rfloor> = 1"
proof -
  have a: "(0::rat) \<le> 175 / 4" and b: "(175 / 4 :: rat) \<le> 100" and c: "(0::int) \<le> 4"
    and d: "(4::int) \<le> 2 ^ 1000" by simp_all
  have e: "\<lfloor>rnd (rnd (175 / 4 * rnd (of_int 4)) / 100)\<rfloor> = 1" by code_simp
  from sample_size_truncates [OF a b c d, of 100] a b c d e show ?thesis by simp
qed

text \<open>Outside that range line 96 can raise: with the percentage \<open>2 ^ 1023\<close> and 2
  records the product is infinite and \<^verbatim>\<open>int\<close> raises \<open>OverflowError\<close>.\<close>

lemma sample_size_overflow: "sample_size 100 (Fin (pow2 1023)) 2 = Inl OverflowError"
proof -
  have "py_float 2 = Inr (Fin 2)" by code_simp
  moreover have "pow2 1023 \<noteq> 0" using pow2_pos [of 1023] by simp
  ultimately show ?thesis
    by (simp add: sample_size_def py_then_def py_float_100 fl_overflow inf_of_def)
qed

text \<open>
  C5 (corrected). The claim puts the returned positions in \<open>[0, N)\<close> and leaves the
  scaling by 4 to the loader; line 105 multiplies every drawn index by 4 inside
  \<open>random_sample\<close>, whose docstring promises the first line of each sampled read. With
  two records and both sampled, the result holds the line offset 4.
\<close>

theorem random_sample_outside_index_range:
  "num_sequences (int (length example_fastq)) = Inr 2
   \<and> random_sample highest_first example_fastq 2 (Fin 0) = Inr [4, 0]
   \<and> \<not> in_index_range 2 [4, 0]"
  by code_simp

text \<open>
  C5 as amended: for a file of \<open>N\<close> records (\<^verbatim>\<open>int(num_lines/4)\<close>, the integer quotient
  for every file of fewer than \<open>2 ^ 53\<close> lines) and \<open>0 < k \<le> N\<close>, \<open>random_sample\<close> with
  \<^verbatim>\<open>n_absolute = k\<close> and \<^verbatim>\<open>n_percent = 0\<close> returns exactly \<open>k\<close> distinct line offsets,
  each of them 4 times a record index in \<open>[0, N)\<close>: the scaling by the stride of 4 lines
  is done by the sampler itself. The script passes the population \<open>range(0, N)\<close> and
  the size \<open>k\<close> to \<^verbatim>\<open>random.sample\<close>; the count, the distinctness and the range come
  from the contract of that call.
\<close>

theorem random_sample_line_offsets:
  assumes "is_choice pick" and "num_sequences (int (length file)) = Inr N"
    and "0 < k" and "k \<le> N"
  shows "\<exists>ps. random_sample pick file k (Fin 0) = Inr ps
           \<and> int (length ps) = k \<and> distinct ps
           \<and> (\<forall>p \<in> set ps. p mod 4 = 0 \<and> 0 \<le> p div 4 \<and> p div 4 < N)"
proof -
  from assms(2-4) num_sequences_zero have ne: "file \<noteq> []" by auto
  from assms(3) have "0 \<le> k" by simp
  from py_random_sample_contract [OF assms(1) this assms(4)] obtain xs where
    xs: "py_random_sample pick N k = Inr xs" and len: "int (length xs) = k"
    and dist: "distinct xs" and range: "\<forall>x \<in> set xs. 0 \<le> x \<and> x < N"
    by blast
  have "random_sample pick file k (Fin 0) = Inr (map (\<lambda>x. x * 4) xs)"
    using ne assms(2-4) xs by (simp add: random_sample_def sample_size_def py_then_def)
  moreover have "int (length (map (\<lambda>x. x * 4) xs)) = k" using len by simp
  moreover have "distinct (map (\<lambda>x. x * 4) xs)"
    using dist by (simp add: distinct_map inj_on_def)
  moreover have "\<forall>p \<in> set (map (\<lambda>x. x * 4) xs). p mod 4 = 0 \<and> 0 \<le> p div 4 \<and> p div 4 < N"
    using range by auto
  ultimately show ?thesis by blast
qed

theorem random_sample_line_offsets_witness:
  "is_choice highest_first \<and> num_sequences (int (length example_fastq)) = Inr 2
   \<and> (0::int) < 2 \<and> (2::int) \<le> 2
   \<and> random_sample highest_first example_fastq 2 (Fin 0) = Inr [4, 0]"
proof -
  have b: "num_sequences (int (length example_fastq)) = Inr 2" by code_simp
  have c: "random_sample highest_first example_fastq 2 (Fin 0) = Inr [4, 0]" by code_simp
  from random_sample_line_offsets [OF highest_first_choice b, of 2] highest_first_choice b c
  show ?thesis by simp
qed

text \<open>On a file that has a line, \<open>random_sample\<close> ends the run at one of its two
  \<^verbatim>\<open>sys.exit()\<close> calls exactly when the effective sample size \<open>k\<close> is greater than the
  record count \<open>N\<close> or is 0.\<close>

lemma random_sample_exit_iff:
  assumes "file \<noteq> []" and "num_sequences (int (length file)) = Inr N"
  shows "(sample_size a p N = Inr k \<longrightarrow>
            (invalid_sample_size (random_sample pick file a p) \<longleftrightarrow> N < k \<or> k = 0))
         \<and> invalid_sample_size (random_sample pick file 0 (Fin 0))
         \<and> (N < k' \<longrightarrow> invalid_sample_size (random_sample pick file k' (Fin 0)))"
  using assms
  by (auto simp: random_sample_def sample_size_def py_then_def invalid_sample_size_def
        py_random_sample_def split: sum.splits)

text \<open>
  C6 (defect in the code). The claim says that the sampler fails with
  \<^verbatim>\<open>InvalidSampleSize\<close> whenever the effective sample size is 0 or exceeds the record
  count. On a file of no lines the record count is 0, so every request is of that kind;
  but \<^verbatim>\<open>counter\<close> is never bound, line 93 raises \<open>UnboundLocalError\<close>, and neither
  \<^verbatim>\<open>sys.exit()\<close> with its message is reached.
\<close>

theorem random_sample_empty_file:
  "random_sample highest_first [] 0 (Fin 0) = Inl UnboundLocalError
   \<and> \<not> invalid_sample_size (random_sample highest_first [] 0 (Fin 0))
   \<and> random_sample highest_first [] 1 (Fin 0) = Inl UnboundLocalError
   \<and> \<not> invalid_sample_size (random_sample highest_first [] 1 (Fin 0))"
  by (simp add: random_sample_def invalid_sample_size_def)

subsection \<open>The example data are what the pipeline computes\<close>

lemma example_samples_reached:
  "sample_and_trim example_args silent_run = Inr example_samples"
  by code_simp

lemma example_hits_reached:
  "blast_to_dict example_search = Inr (example_hits, [''123'', ''789''])"
  by code_simp

subsection \<open>Empty search result\<close>

lemma blast_to_dict_rejected:
  assumes "parse_records ([], []) results = Inr (GeneIDs, blast_dict)"
    and "remdups GeneIDs = []"
  shows "blast_to_dict results = Inl (SystemExit BlastQueryRejected)"
  using assms by (simp add: blast_to_dict_def py_then_def)

text \<open>
  C8. When all records of the search response have been parsed and the deduplicated list
  of GeneIDs is empty, the run ends with the \<^verbatim>\<open>sys.exit()\<close> of \<open>blast_to_dict\<close>: no
  \<^verbatim>\<open>epost\<close> or \<^verbatim>\<open>efetch\<close> call is among its events, and if the stages before the search
  returned, the only event is the search itself and the exception is that exit.
\<close>

theorem main_halts_before_fetch:
  assumes "parse_records ([], []) (blast_results w) = Inr (GeneIDs, blast_dict)"
    and "remdups GeneIDs = []"
  shows "list_all (\<lambda>ev. \<not> is_fetch_event ev) (fst (main a w))
         \<and> snd (main a w) \<noteq> None
         \<and> (\<forall>sample_dict. sample_and_trim a w = Inr sample_dict \<longrightarrow>
              main a w = ([Qblast (write_fasta sample_dict) (hitlistSize a)],
                          Some (SystemExit BlastQueryRejected)))"
  using blast_to_dict_rejected [OF assms]
  by (simp add: main_def split: sum.splits)

theorem main_halts_before_fetch_witness:
  "parse_records ([], []) (blast_results silent_run) = Inr ([], [])
   \<and> remdups ([] :: string list) = []
   \<and> sample_and_trim example_args silent_run = Inr example_samples
   \<and> main example_args silent_run =
       ([Qblast (write_fasta example_samples) 1], Some (SystemExit BlastQueryRejected))"
proof -
  have a: "parse_records ([], []) (blast_results silent_run) = Inr ([], [])"
    by (simp add: silent_run_def py_then_def)
  have b: "remdups ([] :: string list) = []" by simp
  have c: "sample_and_trim example_args silent_run = Inr example_samples"
    by code_simp
  from main_halts_before_fetch [OF a b, of example_args] a b c show ?thesis
    by (simp add: example_args_def)
qed

subsection \<open>Metadata merge\<close>

lemma setitem2_keys: "fst ` set (setitem2 d k1 k2 v) = insert k1 (fst ` set d)"
  by (simp add: setitem2_def dom_update)

lemma store_record_keys:
  assumes "store_record fd r = Inr fd'"
  shows "fst ` set fd' = insert (gb_id r) (fst ` set fd)"
proof -
  from assms obtain o1 s1 t1 d1 where
    "fd' = setitem2 (setitem2 (setitem2 (setitem2 fd (gb_id r) ''Organism'' o1)
             (gb_id r) ''Source'' s1) (gb_id r) ''Domain'' d1) (gb_id r) ''Taxonomy'' t1"
    by (auto simp: store_record_def py_then_def split: sum.splits)
  then show ?thesis by (simp add: setitem2_keys)
qed

lemma store_records_keys:
  "store_records fd rs = Inr fd' \<Longrightarrow> fst ` set fd' = fst ` set fd \<union> gb_id ` set rs"
proof (induction rs arbitrary: fd)
  case Nil
  then show ?case by simp
next
  case (Cons r rs)
  from Cons.prems obtain fd1 where
    1: "store_record fd r = Inr fd1" and 2: "store_records fd1 rs = Inr fd'"
    by (auto simp: py_then_def split: sum.splits)
  from Cons.IH [OF 2] store_record_keys [OF 1] show ?case by auto
qed

lemma merge_accessions_no_match:
  assumes "map_of h ''Accession'' = Some (PStr a)"
    and "\<forall>accession \<in> fst ` set rest. \<not> sublist accession a"
  shows "merge_accessions fetch_dict rest h = Inr h"
  using assms(2)
proof (induction rest)
  case Nil
  then show ?case by simp
next
  case (Cons p rest)
  obtain accession entry where p: "p = (accession, entry)" by (cases p)
  with Cons.prems have "\<not> sublist accession a" by simp
  moreover from Cons have "merge_accessions fetch_dict rest h = Inr h" by simp
  ultimately show ?case
    using assms(1) p by (simp add: py_then_def getitem_def)
qed

lemma merge_hits_nth:
  "merge_hits fetch_dict bd = Inr bd' \<Longrightarrow> i < length bd \<Longrightarrow>
     length bd' = length bd \<and> fst (bd' ! i) = fst (bd ! i)
     \<and> merge_accessions fetch_dict fetch_dict (snd (bd ! i)) = Inr (snd (bd' ! i))"
proof (induction bd arbitrary: bd' i)
  case Nil
  then show ?case by simp
next
  case (Cons p bd)
  obtain title h where p: "p = (title, h)" by (cases p)
  from Cons.prems(1) p obtain h' bd0 where
    1: "merge_accessions fetch_dict fetch_dict h = Inr h'"
    and 2: "merge_hits fetch_dict bd = Inr bd0" and 3: "bd' = (title, h') # bd0"
    by (auto simp: py_then_def split: sum.splits)
  show ?case
  proof (cases i)
    case 0
    with 1 2 3 p Cons.IH [OF 2] show ?thesis
      by (cases bd) (auto simp: py_then_def split: sum.splits)
  next
    case (Suc j)
    with Cons.prems(2) have "j < length bd" by simp
    from Cons.IH [OF 2 this] 3 p Suc show ?thesis by simp
  qed
qed

text \<open>A hit that \<open>blast_to_dict\<close> built has none of the four metadata keys.\<close>

lemma set_update_subset: "set (AList.update k v al) \<subseteq> insert (k, v) (set al)"
  by (induction al) auto

lemma setitem2_inner_keys:
  assumes "\<forall>(t, h) \<in> set d. fst ` set h \<subseteq> K" and "k2 \<in> K"
  shows "\<forall>(t, h) \<in> set (setitem2 d k1 k2 v). fst ` set h \<subseteq> K"
proof -
  let ?h0 = "case map_of d k1 of None \<Rightarrow> [] | Some h \<Rightarrow> h"
  have "fst ` set ?h0 \<subseteq> K"
  proof (cases "map_of d k1")
    case None
    then show ?thesis by simp
  next
    case (Some h0)
    then have "(k1, h0) \<in> set d" by (rule map_of_SomeD)
    with assms(1) Some show ?thesis by fastforce
  qed
  with assms(2) have "fst ` set (AList.update k2 v ?h0) \<subseteq> K"
    by (simp add: dom_update)
  moreover have "set (setitem2 d k1 k2 v) \<subseteq> insert (k1, AList.update k2 v ?h0) (set d)"
    unfolding setitem2_def by (rule set_update_subset)
  ultimately show ?thesis using assms(1) by blast
qed

lemma parse_hsp_keys:
  assumes "parse_hsp query title acc h = Inr acc'"
    and "\<forall>(t, h) \<in> set (snd acc). fst ` set h \<subseteq> blast_keys"
  shows "\<forall>(t, h) \<in> set (snd acc'). fst ` set h \<subseteq> blast_keys"
proof -
  from assms(1) obtain v1 v2 v3 v4 v5 v6 v7 v8 v9 g where
    "acc' = (g, setitem2 (setitem2 (setitem2 (setitem2 (setitem2 (setitem2 (setitem2 (setitem2
       (setitem2 (snd acc) title ''SeqID'' v1) title ''Sequence'' v2) title ''SeqLength'' v3)
       title ''Description'' v4) title ''Accession'' v5) title ''Db'' v6) title ''Score'' v7)
       title ''E_value'' v8) title ''Percent_Identity'' v9)"
    by (auto simp: parse_hsp_def py_then_def Let_def split: sum.splits)
  then have "snd acc' = setitem2 (setitem2 (setitem2 (setitem2 (setitem2 (setitem2 (setitem2
       (setitem2 (setitem2 (snd acc) title ''SeqID'' v1) title ''Sequence'' v2)
       title ''SeqLength'' v3) title ''Description'' v4) title ''Accession'' v5)
       title ''Db'' v6) title ''Score'' v7) title ''E_value'' v8) title ''Percent_Identity'' v9"
    by simp
  then show ?thesis
    by (simp only:) (intro setitem2_inner_keys assms(2), simp_all add: blast_keys_def)
qed

lemma parse_hsps_keys:
  "parse_hsps query title acc hs = Inr acc' \<Longrightarrow>
     \<forall>(t, h) \<in> set (snd acc). fst ` set h \<subseteq> blast_keys \<Longrightarrow>
     \<forall>(t, h) \<in> set (snd acc'). fst ` set h \<subseteq> blast_keys"
proof (induction hs arbitrary: acc)
  case Nil
  then show ?case by simp
next
  case (Cons h hs)
  from Cons.prems(1) obtain acc1 where
    1: "parse_hsp query title acc h = Inr acc1" and 2: "parse_hsps query title acc1 hs = Inr acc'"
    by (auto simp: py_then_def split: sum.splits)
  from Cons.IH [OF 2 parse_hsp_keys [OF 1 Cons.prems(2)]] show ?case .
qed

lemma parse_alignments_keys:
  "parse_alignments query acc as = Inr acc' \<Longrightarrow>
     \<forall>(t, h) \<in> set (snd acc). fst ` set h \<subseteq> blast_keys \<Longrightarrow>
     \<forall>(t, h) \<in> set (snd acc'). fst ` set h \<subseteq> blast_keys"
proof (induction as arbitrary: acc)
  case Nil
  then show ?case by simp
next
  case (Cons a as)
  from Cons.prems(1) obtain acc1 where
    1: "parse_hsps query (align_title a) acc (align_hsps a) = Inr acc1"
    and 2: "parse_alignments query acc1 as = Inr acc'"
    by (auto simp: py_then_def split: sum.splits)
  from Cons.IH [OF 2 parse_hsps_keys [OF 1 Cons.prems(2)]] show ?case .
qed

lemma parse_records_keys:
  "parse_records acc rs = Inr acc' \<Longrightarrow>
     \<forall>(t, h) \<in> set (snd acc). fst ` set h \<subseteq> blast_keys \<Longrightarrow>
     \<forall>(t, h) \<in> set (snd acc'). fst ` set h \<subseteq> blast_keys"
proof (induction rs arbitrary: acc)
  case Nil
  then show ?case by simp
next
  case (Cons r rs)
  from Cons.prems(1) obtain acc1 where
    1: "parse_alignments (record_query r) acc (record_alignments r) = Inr acc1"
    and 2: "parse_records acc1 rs = Inr acc'"
    by (auto simp: py_then_def split: sum.splits)
  from Cons.IH [OF 2 parse_alignments_keys [OF 1 Cons.prems(2)]] show ?case .
qed

lemma blast_to_dict_no_metadata:
  assumes "blast_to_dict results = Inr (bd, ids)" and "(title, h) \<in> set bd"
  shows "map_of h ''Organism'' = None \<and> map_of h ''Source'' = None
         \<and> map_of h ''Domain'' = None \<and> map_of h ''Taxonomy'' = None"
proof -
  from assms(1) obtain g where "parse_records ([], []) results = Inr (g, bd)"
    by (auto simp: blast_to_dict_def py_then_def split: sum.splits if_splits)
  from parse_records_keys [OF this] assms(2) have "fst ` set h \<subseteq> blast_keys" by fastforce
  then show ?thesis
    by (auto simp: map_of_eq_None_iff blast_keys_def)
qed

subsection \<open>Report assembly\<close>

lemma getitem_error: "getitem h k = Inl e \<Longrightarrow> e = KeyError"
  by (simp add: getitem_def split: option.splits)

lemma seq_ids_error: "seq_ids bd = Inl e \<Longrightarrow> e = KeyError"
  by (induction bd rule: seq_ids.induct)
    (auto simp: py_then_def split: sum.splits dest: getitem_error)

lemma hit_row_error: "hit_row h cs = Inl e \<Longrightarrow> e = KeyError"
  by (induction cs) (auto simp: py_then_def split: sum.splits dest: getitem_error)

lemma hit_row_missing:
  "c \<in> set cs \<Longrightarrow> map_of h c = None \<Longrightarrow> hit_row h cs = Inl KeyError"
proof (induction cs)
  case Nil
  then show ?case by simp
next
  case (Cons x cs)
  show ?case
  proof (cases "hit_row h (x # cs)")
    case (Inl e)
    then show ?thesis using hit_row_error by blast
  next
    case (Inr r)
    with Cons show ?thesis
      by (auto simp: py_then_def getitem_def split: sum.splits option.splits)
  qed
qed

lemma write_hits_fails:
  "i < length bd \<Longrightarrow> hit_row (snd (bd ! i)) columns = Inl KeyError \<Longrightarrow>
     snd (write_hits bd) = Some KeyError \<and> length (fst (write_hits bd)) \<le> i"
proof (induction bd arbitrary: i)
  case Nil
  then show ?case by simp
next
  case (Cons p bd)
  obtain title h where p: "p = (title, h)" by (cases p)
  show ?case
  proof (cases "hit_row h columns")
    case (Inl e)
    then have "e = KeyError" by (rule hit_row_error)
    with Inl p show ?thesis by simp
  next
    case (Inr r)
    with Cons.prems p obtain j where j: "i = Suc j" by (cases i) auto
    with Cons.prems have "j < length bd" "hit_row (snd (bd ! j)) columns = Inl KeyError"
      by simp_all
    from Cons.IH [OF this] Inr p j show ?thesis
      by (cases "write_hits bd") simp
  qed
qed

lemma tabular_report_fails:
  assumes "i < length bd" and "hit_row (snd (bd ! i)) columns = Inl KeyError"
  shows "snd (tabular_report sd bd) = Some KeyError
         \<and> length (fst (tabular_report sd bd)) \<le> i + 1"
proof (cases "seq_ids bd")
  case (Inl e)
  then have "e = KeyError" by (rule seq_ids_error)
  with Inl show ?thesis by (simp add: tabular_report_def)
next
  case (Inr records)
  from write_hits_fails [OF assms] Inr show ?thesis
    by (auto simp: tabular_report_def split: prod.splits option.splits)
qed

text \<open>
  C10. A hit at position \<open>i\<close> whose \<^verbatim>\<open>Accession\<close> contains the identifier of no fetched
  record comes out of \<open>fetch_to_dict\<close> as it went in, so without \<^verbatim>\<open>Organism\<close>,
  \<^verbatim>\<open>Source\<close>, \<^verbatim>\<open>Domain\<close> and \<^verbatim>\<open>Taxonomy\<close> if it had none of them, as every hit that
  \<open>blast_to_dict\<close> builds. \<open>tabular_report\<close> then raises \<open>KeyError\<close> and has written at
  most the column titles and the lines of the \<open>i\<close> hits before it: no line for this hit
  and no fallback line. This holds for every list of fetched records, the non-empty ones
  included.
\<close>

theorem unmatched_hit_fails_report:
  assumes "fetch_to_dict bd gb_records = Inr bd'"
    and "i < length bd" and "bd ! i = (title, h)"
    and "map_of h ''Accession'' = Some (PStr a)"
    and "\<forall>r \<in> set gb_records. \<not> sublist (gb_id r) a"
    and "map_of h ''Organism'' = None" and "map_of h ''Source'' = None"
    and "map_of h ''Domain'' = None" and "map_of h ''Taxonomy'' = None"
  shows "bd' ! i = (title, h)
         \<and> snd (tabular_report sd bd') = Some KeyError
         \<and> length (fst (tabular_report sd bd')) \<le> i + 1"
proof -
  from assms(1) obtain fetch_dict where
    fd: "store_records [] gb_records = Inr fetch_dict"
    and mh: "merge_hits fetch_dict bd = Inr bd'"
    by (auto simp: fetch_to_dict_def py_then_def split: sum.splits)
  from store_records_keys [OF fd] assms(5)
  have "\<forall>accession \<in> fst ` set fetch_dict. \<not> sublist accession a" by auto
  with assms(4) have "merge_accessions fetch_dict fetch_dict h = Inr h"
    by (rule merge_accessions_no_match)
  with merge_hits_nth [OF mh assms(2)] assms(3)
  have len: "length bd' = length bd" and nth: "bd' ! i = (title, h)"
    by (simp_all add: prod_eq_iff)
  have "''Organism'' \<in> set columns" by (simp add: columns_def)
  then have "hit_row h columns = Inl KeyError"
    using assms(6) by (rule hit_row_missing)
  with nth have "hit_row (snd (bd' ! i)) columns = Inl KeyError" by simp
  with tabular_report_fails [of i bd' sd] len assms(2) nth show ?thesis by simp
qed

theorem unmatched_hit_fails_report_witness:
  "example_metadata \<noteq> []
   \<and> fetch_to_dict example_hits example_metadata = Inr merged_hits
   \<and> example_hits ! 1 =
        (''gi|789|gb|EF3.3|third'', found_hit ''read2'' ''GATTACA'' ''third'' ''EF3.3'')
   \<and> merged_hits ! 1 =
        (''gi|789|gb|EF3.3|third'', found_hit ''read2'' ''GATTACA'' ''third'' ''EF3.3'')
   \<and> tabular_report example_samples merged_hits =
        ([map PStr columns,
          hit_cells (found_hit ''read1'' ''CGT'' ''first'' ''AB1.1'' @ bacterium)],
         Some KeyError)"
proof -
  let ?h = "found_hit ''read2'' ''GATTACA'' ''third'' ''EF3.3''"
  have a: "fetch_to_dict example_hits example_metadata = Inr merged_hits" by code_simp
  have b: "1 < length example_hits" by (simp add: example_hits_def)
  have c: "example_hits ! 1 = (''gi|789|gb|EF3.3|third'', ?h)"
    by (simp add: example_hits_def)
  have d: "map_of ?h ''Accession'' = Some (PStr ''EF3.3'')" by (simp add: found_hit_def)
  have e: "\<forall>r \<in> set example_metadata. \<not> sublist (gb_id r) ''EF3.3''" by code_simp
  have f: "map_of ?h ''Organism'' = None" "map_of ?h ''Source'' = None"
    "map_of ?h ''Domain'' = None" "map_of ?h ''Taxonomy'' = None"
    by (simp_all add: found_hit_def)
  have g: "example_metadata \<noteq> []" by (simp add: example_metadata_def)
  have r: "tabular_report example_samples merged_hits =
        ([map PStr columns,
          hit_cells (found_hit ''read1'' ''CGT'' ''first'' ''AB1.1'' @ bacterium)],
         Some KeyError)" by code_simp
  from unmatched_hit_fails_report [OF a b c d e f, of example_samples] a c g r
  show ?thesis by simp
qed

text \<open>The report when every hit is complete and every header is well formed: the
  column titles, one line per hit, one fallback line per read without a hit.\<close>

lemma hit_row_complete:
  "list_all (\<lambda>c. map_of h c \<noteq> None) cs \<Longrightarrow>
     hit_row h cs = Inr (map (\<lambda>c. the (map_of h c)) cs)"
  by (induction cs) (auto simp: py_then_def getitem_def)

lemma write_hits_complete:
  "complete_hits bd \<Longrightarrow> write_hits bd = (map (\<lambda>(title, h). hit_cells h) bd, None)"
  by (induction bd) (auto simp: complete_hits_def hit_cells_def hit_row_complete)

lemma seq_ids_complete:
  "complete_hits bd \<Longrightarrow> seq_ids bd = Inr (map (\<lambda>(title, h). the (map_of h ''SeqID'')) bd)"
  by (induction bd) (auto simp: complete_hits_def columns_def py_then_def getitem_def)

lemma in_records_iff:
  "complete_hits bd \<Longrightarrow>
     PStr (drop 1 k) \<in> set (map (\<lambda>(title, h). the (map_of h ''SeqID'')) bd)
       \<longleftrightarrow> has_hit bd k"
  by (induction bd) (auto simp: complete_hits_def has_hit_def columns_def)

lemma first_field_no_tab: "CHR 0x09 \<notin> set s \<Longrightarrow> first_field s = s"
  by (auto simp: first_field_def takeWhile_eq_all_conv)

lemma at_header_cons:
  "at_header k \<Longrightarrow> CHR ''@'' # drop 1 k = k \<and> CHR 0x09 \<notin> set (drop 1 k)"
  by (cases k) (auto simp: at_header_def)

lemma fallback_row_well_formed:
  assumes "well_formed_samples sd" and "(k, e) \<in> set sd"
  shows "fallback_row sd (drop 1 k) = Inr (fallback_cells k e)"
proof -
  from assms have k: "at_header k" and s: "sequence e \<noteq> None"
    and d: "distinct (map fst sd)"
    by (auto simp: well_formed_samples_def list_all_iff)
  from d assms(2) have "map_of sd k = Some e" by simp
  with at_header_cons [OF k] s show ?thesis
    by (auto simp: fallback_row_def fallback_cells_def first_field_no_tab)
qed

lemma write_fallbacks_well_formed:
  assumes "well_formed_samples sd" and "complete_hits bd"
  shows "set sd' \<subseteq> set sd \<Longrightarrow>
     write_fallbacks sd (map (\<lambda>(title, h). the (map_of h ''SeqID'')) bd)
        (map (\<lambda>sequenceID. drop 1 (fst sequenceID)) sd')
     = (map (\<lambda>(k, e). fallback_cells k e) (filter (\<lambda>(k, e). \<not> has_hit bd k) sd'), None)"
proof (induction sd')
  case Nil
  then show ?case by simp
next
  case (Cons p sd')
  obtain k e where p: "p = (k, e)" by (cases p)
  with Cons.prems have "(k, e) \<in> set sd" by simp
  from fallback_row_well_formed [OF assms(1) this] Cons p in_records_iff [OF assms(2), of k]
  show ?case by simp
qed

lemma tabular_report_rows:
  assumes "well_formed_samples sd" and "complete_hits bd"
  shows "tabular_report sd bd =
           (map PStr columns # map (\<lambda>(title, h). hit_cells h) bd
              @ map (\<lambda>(k, e). fallback_cells k e) (filter (\<lambda>(k, e). \<not> has_hit bd k) sd),
            None)"
  using write_fallbacks_well_formed [OF assms, of sd] seq_ids_complete [OF assms(2)]
    write_hits_complete [OF assms(2)]
  by (simp add: tabular_report_def)

text \<open>Counting the lines of one read.\<close>

lemma hit_cells_first:
  "hit_cells h = the (map_of h ''SeqID'') # map (\<lambda>c. the (map_of h c)) (tl columns)"
  by (simp add: hit_cells_def columns_def)

lemma count_hit_rows:
  "complete_hits bd \<Longrightarrow>
     length (filter (\<lambda>r. case r of [] \<Rightarrow> False | c # cs \<Rightarrow> c = PStr (drop 1 k))
               (map (\<lambda>(title, h). hit_cells h) bd)) = hits_of bd k"
  by (induction bd) (auto simp: complete_hits_def hits_of_def hit_cells_first columns_def)

lemma count_key:
  "distinct (map fst xs) \<Longrightarrow>
     length (filter (\<lambda>(k', e'). k' = k) xs) = (if k \<in> fst ` set xs then 1 else 0)"
  by (induction xs) (auto simp: rev_image_eqI)

lemma at_header_inj:
  "at_header k \<Longrightarrow> at_header k' \<Longrightarrow> drop (Suc 0) k' = drop (Suc 0) k \<longleftrightarrow> k' = k"
  by (cases k; cases k') (auto simp: at_header_def)

lemma count_fallback_rows:
  assumes "well_formed_samples sd" and "(k, e) \<in> set sd"
  shows "length (filter (\<lambda>r. case r of [] \<Rightarrow> False | c # cs \<Rightarrow> c = PStr (drop 1 k))
           (map (\<lambda>(k, e). fallback_cells k e) (filter (\<lambda>(k, e). \<not> has_hit bd k) sd)))
         = (if has_hit bd k then 0 else 1)"
proof -
  from assms have k: "at_header k" and d: "distinct (map fst sd)"
    and all: "\<forall>(k', e') \<in> set sd. at_header k'"
    by (auto simp: well_formed_samples_def list_all_iff)
  have "filter (\<lambda>r. case r of [] \<Rightarrow> False | c # cs \<Rightarrow> c = PStr (drop 1 k))
           (map (\<lambda>(k, e). fallback_cells k e) (filter (\<lambda>(k, e). \<not> has_hit bd k) sd))
        = map (\<lambda>(k, e). fallback_cells k e)
            (filter (\<lambda>(k', e'). drop 1 k' = drop 1 k \<and> \<not> has_hit bd k') sd)"
    by (induction sd) (auto simp: fallback_cells_def)
  also have "filter (\<lambda>(k', e'). drop 1 k' = drop 1 k \<and> \<not> has_hit bd k') sd
        = filter (\<lambda>(k', e'). k' = k \<and> \<not> has_hit bd k) sd"
    using all k by (intro filter_cong) (auto simp: at_header_inj)
  finally have "length (filter (\<lambda>r. case r of [] \<Rightarrow> False | c # cs \<Rightarrow> c = PStr (drop 1 k))
           (map (\<lambda>(k, e). fallback_cells k e) (filter (\<lambda>(k, e). \<not> has_hit bd k) sd)))
        = length (filter (\<lambda>(k', e'). k' = k \<and> \<not> has_hit bd k) sd)"
    by simp
  also have "\<dots> = (if has_hit bd k then 0 else length (filter (\<lambda>(k', e'). k' = k) sd))"
    by (simp add: case_prod_unfold)
  also have "\<dots> = (if has_hit bd k then 0 else 1)"
    using count_key [OF d, of k] assms(2) by (auto simp: rev_image_eqI)
  finally show ?thesis .
qed

lemma hits_of_zero: "\<not> has_hit bd k \<Longrightarrow> hits_of bd k = 0"
  by (auto simp: has_hit_def hits_of_def list_ex_iff filter_empty_conv)

text \<open>
  C2 (corrected). The claim ends with every sampled read appearing exactly once in the
  report. A read with two hits (\<^verbatim>\<open>--hitlistSize 2\<close>) has two lines: one per hit.
\<close>

theorem report_lists_read_twice:
  "well_formed_samples example_samples \<and> complete_hits two_hits_read1
   \<and> snd (tabular_report example_samples two_hits_read1) = None
   \<and> rows_for (fst (tabular_report example_samples two_hits_read1)) ''@read1'' = 2"
  by code_simp

text \<open>
  C2 as amended: when every hit has all its columns and the headers are well formed, the
  report is the column titles, then one line per hit, then one fallback line per read
  whose header (without its \<^verbatim>\<open>@\<close>) is the \<^verbatim>\<open>SeqID\<close> of no hit. So every read is in
  exactly one of the two categories: a read with hits has one line per hit of its own and
  no fallback line, and a read without hits has exactly one line, its fallback line.
\<close>

theorem report_rows_by_sample:
  assumes "well_formed_samples sd" and "complete_hits bd"
  shows "tabular_report sd bd =
           (map PStr columns # map (\<lambda>(title, h). hit_cells h) bd
              @ map (\<lambda>(k, e). fallback_cells k e) (filter (\<lambda>(k, e). \<not> has_hit bd k) sd),
            None)
         \<and> (\<forall>(k, e) \<in> set sd.
               rows_for (fst (tabular_report sd bd)) k
                 = (if has_hit bd k then hits_of bd k else 1))"
proof -
  have "rows_for (fst (tabular_report sd bd)) k = (if has_hit bd k then hits_of bd k else 1)"
    if "(k, e) \<in> set sd" for k e
    using count_hit_rows [OF assms(2), of k] count_fallback_rows [OF assms(1) that, of bd]
      hits_of_zero [of bd k]
    by (simp add: tabular_report_rows [OF assms] rows_for_def)
  with tabular_report_rows [OF assms] show ?thesis by auto
qed

theorem report_rows_by_sample_witness:
  "well_formed_samples example_samples \<and> complete_hits two_hits_read1
   \<and> tabular_report example_samples two_hits_read1 =
       ([map PStr columns,
         hit_cells (found_hit ''read1'' ''CGT'' ''first'' ''AB1.1'' @ bacterium),
         hit_cells (found_hit ''read1'' ''CGT'' ''second'' ''CD2.2'' @ bacterium),
         fallback_cells ''@read2'' trimmed_read2], None)
   \<and> has_hit two_hits_read1 ''@read1'' \<and> hits_of two_hits_read1 ''@read1'' = 2
   \<and> rows_for (fst (tabular_report example_samples two_hits_read1)) ''@read1'' = 2
   \<and> \<not> has_hit two_hits_read1 ''@read2''
   \<and> rows_for (fst (tabular_report example_samples two_hits_read1)) ''@read2'' = 1"
proof -
  have a: "well_formed_samples example_samples" by code_simp
  have b: "complete_hits two_hits_read1" by code_simp
  have c: "has_hit two_hits_read1 ''@read1''" "hits_of two_hits_read1 ''@read1'' = 2"
    "\<not> has_hit two_hits_read1 ''@read2''" by code_simp+
  have d: "filter (\<lambda>(k, e). \<not> has_hit two_hits_read1 k) example_samples
             = [(''@read2'', trimmed_read2)]"
    using c by (simp add: example_samples_def)
  have m: "map (\<lambda>(title, h). hit_cells h) two_hits_read1 =
       [hit_cells (found_hit ''read1'' ''CGT'' ''first'' ''AB1.1'' @ bacterium),
        hit_cells (found_hit ''read1'' ''CGT'' ''second'' ''CD2.2'' @ bacterium)]"
    by (simp add: two_hits_read1_def)
  note th = report_rows_by_sample [OF a b]
  from th have cnt: "\<forall>(k, e) \<in> set example_samples.
       rows_for (fst (tabular_report example_samples two_hits_read1)) k
         = (if has_hit two_hits_read1 k then hits_of two_hits_read1 k else 1)"
    by (rule conjunct2)
  from th have "tabular_report example_samples two_hits_read1 =
       (map PStr columns # map (\<lambda>(title, h). hit_cells h) two_hits_read1
          @ map (\<lambda>(k, e). fallback_cells k e)
              (filter (\<lambda>(k, e). \<not> has_hit two_hits_read1 k) example_samples), None)"
    by (rule conjunct1)
  then have eq: "tabular_report example_samples two_hits_read1 =
       ([map PStr columns,
         hit_cells (found_hit ''read1'' ''CGT'' ''first'' ''AB1.1'' @ bacterium),
         hit_cells (found_hit ''read1'' ''CGT'' ''second'' ''CD2.2'' @ bacterium),
         fallback_cells ''@read2'' trimmed_read2], None)"
    by (simp only: m d) simp
  have "(''@read1'', trimmed_read1) \<in> set example_samples"
    and "(''@read2'', trimmed_read2) \<in> set example_samples"
    by (simp_all add: example_samples_def)
  with cnt c
  have r1: "rows_for (fst (tabular_report example_samples two_hits_read1)) ''@read1'' = 2"
    and r2: "rows_for (fst (tabular_report example_samples two_hits_read1)) ''@read2'' = 1"
    by fastforce+
  show ?thesis by (intro conjI a b eq c r1 r2)
qed

text \<open>
  C3 (corrected). The fallback line is built from \<^verbatim>\<open>sample_dict['@'+sample]['sequence']\<close>,
  the raw sequence, and its length. The first read of the example has the sequence
  \<^verbatim>\<open>ACGTA\<close> and the trimmed sequence \<^verbatim>\<open>CGT\<close>: its fallback line holds \<^verbatim>\<open>ACGTA\<close> and 5,
  and the line of the claim, with \<^verbatim>\<open>CGT\<close> and 3, is not in the report.
\<close>

theorem fallback_row_not_trimmed:
  "trimmed_sequence trimmed_read1 = Some ''CGT''
   \<and> \<not> has_hit one_hit_read2 ''@read1''
   \<and> tabular_report example_samples one_hit_read2 =
       ([map PStr columns,
         hit_cells (found_hit ''read2'' ''GATTACA'' ''third'' ''EF3.3'' @ bacterium),
         [PStr ''read1'', PStr ''ACGTA'', PInt 5, PStr no_hit_marker]], None)
   \<and> spec_fallback_row ''@read1'' trimmed_read1 =
       [PStr ''read1'', PStr ''CGT'', PInt 3, PStr no_hit_marker]
   \<and> spec_fallback_row ''@read1'' trimmed_read1
       \<notin> set (fst (tabular_report example_samples one_hit_read2))"
  by code_simp

text \<open>
  C3 as amended: for every read whose header is the \<^verbatim>\<open>SeqID\<close> of no hit, the report has
  the fallback line made of the header without its \<^verbatim>\<open>@\<close>, the raw (untrimmed) sequence,
  the length of the raw sequence, and the marker
  \<^verbatim>\<open>NO HIT OR SEQUENCE QUALITY BELOW THRESHOLD\<close>.
\<close>

theorem fallback_row_raw_sequence:
  assumes "well_formed_samples sd" and "complete_hits bd"
    and "(k, e) \<in> set sd" and "\<not> has_hit bd k" and "sequence e = Some s"
  shows "[PStr (drop 1 k), PStr s, PInt (int (length s)),
          PStr ''NO HIT OR SEQUENCE QUALITY BELOW THRESHOLD'']
           \<in> set (fst (tabular_report sd bd))
         \<and> snd (tabular_report sd bd) = None"
proof -
  from assms(3,4) have "fallback_cells k e
      \<in> set (map (\<lambda>(k, e). fallback_cells k e) (filter (\<lambda>(k, e). \<not> has_hit bd k) sd))"
    by force
  with assms(5) show ?thesis
    by (simp add: tabular_report_rows [OF assms(1,2)] fallback_cells_def no_hit_marker_def)
qed

theorem fallback_row_raw_sequence_witness:
  "well_formed_samples example_samples \<and> complete_hits one_hit_read2
   \<and> (''@read1'', trimmed_read1) \<in> set example_samples
   \<and> \<not> has_hit one_hit_read2 ''@read1''
   \<and> sequence trimmed_read1 = Some ''ACGTA''
   \<and> [PStr ''read1'', PStr ''ACGTA'', PInt 5,
       PStr ''NO HIT OR SEQUENCE QUALITY BELOW THRESHOLD'']
        \<in> set (fst (tabular_report example_samples one_hit_read2))"
proof -
  have a: "well_formed_samples example_samples" by code_simp
  have b: "complete_hits one_hit_read2" by code_simp
  have c: "(''@read1'', trimmed_read1) \<in> set example_samples"
    by (simp add: example_samples_def)
  have d: "\<not> has_hit one_hit_read2 ''@read1''" by code_simp
  have e: "sequence trimmed_read1 = Some ''ACGTA''"
    by (simp add: trimmed_read1_def read_entry_def)
  from fallback_row_raw_sequence [OF a b c d e] a b c d e show ?thesis by simp
qed

end
